theory Spec2Isabelle
  imports Main
begin

section \<open>JavaScript values\<close>

text \<open>
  Every value the program handles comes out of \<^verbatim>\<open>JSON.parse\<close> (the feed body, the stored
  followed ids), out of a DOM attribute (a string), or is \<^verbatim>\<open>undefined\<close> because a property
  is missing. A parsed value is a \<open>json\<close>; a JavaScript value is a \<open>json option\<close>, where
  \<open>None\<close> is \<^verbatim>\<open>undefined\<close>. Numbers are the integers (goal counts, minutes, ids); strings
  are byte strings, so white space and letter case are the ASCII ones.
\<close>

datatype json =
    Null
  | Bool bool
  | Num int
  | Str string
  | Arr "json list"
  | Obj "(string \<times> json) list"

type_synonym jsval = "json option"

text \<open>An exception: the class of the error and its message. The message of an exception
  the engine raises is the engine's own; the ones written here follow V8, cut short where
  V8 quotes the offending text.\<close>

datatype error =
    Error string
  | TypeError string
  | SyntaxError string

fun message :: "error \<Rightarrow> string" where
  "message (Error m) = m"
| "message (TypeError m) = m"
| "message (SyntaxError m) = m"

text \<open>
  \<^verbatim>\<open>JSON.parse\<close> and \<^verbatim>\<open>JSON.stringify\<close> are the engine's. The program uses a stored or received
  text in two ways only, it tests whether the text is empty and it parses it, so a text is
  modelled by what the parse makes of it: \<open>Text s\<close> is a string \<open>s\<close> that is not JSON (the
  parse throws a SyntaxError; the empty string is \<open>Text []\<close>), and \<open>JsonText v\<close> is a string
  that parses to \<open>v\<close>. \<^verbatim>\<open>JSON.stringify\<close> of a parsed value \<open>v\<close> writes such a string: parsing
  what it wrote gives \<open>v\<close> back.
\<close>

datatype jtext = Text string | JsonText json

fun JSON_parse :: "jtext \<Rightarrow> error + json" where
  "JSON_parse (Text s) = Inl (SyntaxError ''Unexpected token'')"
| "JSON_parse (JsonText v) = Inr v"

definition JSON_stringify :: "json \<Rightarrow> jtext" where
  "JSON_stringify v = JsonText v"

fun truthyText :: "jtext \<Rightarrow> bool" where
  "truthyText (Text s) = (s \<noteq> [])"
| "truthyText (JsonText v) = True"

fun truthy :: "jsval \<Rightarrow> bool" where
  "truthy None = False"
| "truthy (Some Null) = False"
| "truthy (Some (Bool b)) = b"
| "truthy (Some (Num n)) = (n \<noteq> 0)"
| "truthy (Some (Str s)) = (s \<noteq> [])"
| "truthy (Some (Arr xs)) = True"
| "truthy (Some (Obj kvs)) = True"

text \<open>\<^verbatim>\<open>a || b\<close> and \<^verbatim>\<open>a ?? b\<close>.\<close>

definition orElse :: "jsval \<Rightarrow> jsval \<Rightarrow> jsval" where
  "orElse a b = (if truthy a then a else b)"

fun nullish :: "jsval \<Rightarrow> jsval \<Rightarrow> jsval" where
  "nullish None b = b"
| "nullish (Some Null) b = b"
| "nullish a b = a"

text \<open>Reading a property of a value that is neither \<^verbatim>\<open>null\<close> nor \<^verbatim>\<open>undefined\<close>. An object has
  the properties the parse gave it; a string and an array have \<^verbatim>\<open>length\<close>; none of the other
  names the program reads is a property of a string, a number, a boolean or an array.\<close>

fun getProp :: "json \<Rightarrow> string \<Rightarrow> jsval" where
  "getProp (Obj kvs) k = map_of kvs k"
| "getProp (Arr xs) k = (if k = ''length'' then Some (Num (int (length xs))) else None)"
| "getProp (Str s) k = (if k = ''length'' then Some (Num (int (length s))) else None)"
| "getProp v k = None"

text \<open>\<^verbatim>\<open>v.k\<close> throws on \<^verbatim>\<open>null\<close> and \<^verbatim>\<open>undefined\<close>; \<^verbatim>\<open>v?.k\<close> gives \<^verbatim>\<open>undefined\<close> there.\<close>

definition apos :: string where
  "apos = [CHR 0x27]"

fun dot :: "jsval \<Rightarrow> string \<Rightarrow> error + jsval" where
  "dot None k =
     Inl (TypeError (''Cannot read properties of undefined (reading '' @ apos @ k @ apos @ '')''))"
| "dot (Some Null) k =
     Inl (TypeError (''Cannot read properties of null (reading '' @ apos @ k @ apos @ '')''))"
| "dot (Some v) k = Inr (getProp v k)"

fun optDot :: "jsval \<Rightarrow> string \<Rightarrow> jsval" where
  "optDot None k = None"
| "optDot (Some Null) k = None"
| "optDot (Some v) k = getProp v k"

fun isArray :: "jsval \<Rightarrow> bool" where
  "isArray (Some (Arr xs)) = True"
| "isArray v = False"

text \<open>\<^verbatim>\<open>a === b\<close> and the SameValueZero of \<^verbatim>\<open>Set\<close>: primitives by value, arrays and objects
  by identity. The two sides the program compares never come from the same parse, so an
  array or an object is equal to nothing.\<close>

fun primitive :: "jsval \<Rightarrow> bool" where
  "primitive (Some (Arr xs)) = False"
| "primitive (Some (Obj kvs)) = False"
| "primitive v = True"

definition strictEq :: "jsval \<Rightarrow> jsval \<Rightarrow> bool" where
  "strictEq a b = (primitive a \<and> a = b)"

subsection \<open>Strings\<close>

definition nl :: string where
  "nl = [CHR 0x0A]"

definition digit :: "nat \<Rightarrow> char" where
  "digit n = ''0123456789'' ! n"

fun natStr :: "nat \<Rightarrow> string" where
  "natStr n = (if n < 10 then [digit n] else natStr (n div 10) @ [digit (n mod 10)])"

definition numStr :: "int \<Rightarrow> string" where
  "numStr n = (if n < 0 then ''-'' @ natStr (nat (- n)) else natStr (nat n))"

fun join :: "string \<Rightarrow> string list \<Rightarrow> string" where
  "join sep [] = []"
| "join sep [x] = x"
| "join sep (x # y # ys) = x @ sep @ join sep (y # ys)"

text \<open>
  The string a template literal puts for a value (ToString). An array joins the strings of
  its elements, with nothing for \<^verbatim>\<open>null\<close>. An object out of a JSON parse prints as
  \<^verbatim>\<open>[object Object]\<close>, unless it has an own property \<^verbatim>\<open>toString\<close>: that property hides
  \<^verbatim>\<open>Object.prototype.toString\<close> and is no function, \<^verbatim>\<open>valueOf\<close> gives no primitive either,
  and the conversion throws a TypeError.
\<close>

fun toStr :: "json \<Rightarrow> error + string"
  and elemStrs :: "json list \<Rightarrow> error + string list" where
  "toStr Null = Inr ''null''"
| "toStr (Bool b) = Inr (if b then ''true'' else ''false'')"
| "toStr (Num n) = Inr (numStr n)"
| "toStr (Str s) = Inr s"
| "toStr (Arr xs) = (case elemStrs xs of Inl e \<Rightarrow> Inl e | Inr ss \<Rightarrow> Inr (join '','' ss))"
| "toStr (Obj kvs) =
     (if map_of kvs ''toString'' = None then Inr ''[object Object]''
      else Inl (TypeError ''Cannot convert object to primitive value''))"
| "elemStrs [] = Inr []"
| "elemStrs (x # xs) =
     (case (if x = Null then Inr [] else toStr x) of
        Inl e \<Rightarrow> Inl e
      | Inr s \<Rightarrow> (case elemStrs xs of Inl e \<Rightarrow> Inl e | Inr ss \<Rightarrow> Inr (s # ss)))"

fun toString :: "jsval \<Rightarrow> error + string" where
  "toString None = Inr ''undefined''"
| "toString (Some v) = toStr v"

text \<open>A template literal: the substitutions are evaluated from left to right, the first
  exception ends the evaluation, and the pieces are put one after the other.\<close>

fun template :: "(error + string) list \<Rightarrow> error + string" where
  "template [] = Inr []"
| "template (p # ps) =
     (case p of
        Inl e \<Rightarrow> Inl e
      | Inr s \<Rightarrow> (case template ps of Inl e \<Rightarrow> Inl e | Inr r \<Rightarrow> Inr (s @ r)))"

text \<open>\<^verbatim>\<open>list.map(g)\<close> with a callback that may throw: left to right, the first exception
  ends the call.\<close>

fun mapE :: "('a \<Rightarrow> error + 'b) \<Rightarrow> 'a list \<Rightarrow> error + 'b list" where
  "mapE g [] = Inr []"
| "mapE g (x # xs) =
     (case g x of Inl e \<Rightarrow> Inl e
      | Inr y \<Rightarrow> (case mapE g xs of Inl e \<Rightarrow> Inl e | Inr ys \<Rightarrow> Inr (y # ys)))"

definition isWs :: "char \<Rightarrow> bool" where
  "isWs c = (c \<in> set [CHR '' '', CHR 0x09, CHR 0x0A, CHR 0x0B, CHR 0x0C, CHR 0x0D])"

definition trim :: "string \<Rightarrow> string" where
  "trim s = rev (dropWhile isWs (rev (dropWhile isWs s)))"

text \<open>\<^verbatim>\<open>s.split(/\s+/)\<close>: \<open>cur\<close> is the piece being read, reversed, and \<open>inWs\<close> says that the
  last character read was white space.\<close>

fun splitWs :: "string \<Rightarrow> string \<Rightarrow> bool \<Rightarrow> string list" where
  "splitWs [] cur inWs = [rev cur]"
| "splitWs (c # cs) cur inWs =
     (if isWs c then (if inWs then splitWs cs cur True else rev cur # splitWs cs [] True)
      else splitWs cs (c # cur) False)"

definition toUpper :: "char \<Rightarrow> char" where
  "toUpper c = (let n = (of_char c :: nat) in if 97 \<le> n \<and> n \<le> 122 then char_of (n - 32) else c)"

definition toUpperCase :: "string \<Rightarrow> string" where
  "toUpperCase s = map toUpper s"

section \<open>The platform\<close>

text \<open>
  Dates are the browser's. \<open>Date_new P v\<close> is the time value of \<^verbatim>\<open>new Date(v)\<close>, \<open>None\<close> when
  the date is invalid (the time value is NaN); \<open>localeTime P t\<close> is what
  \<^verbatim>\<open>toLocaleTimeString("en-GB", { hour: "2-digit", minute: "2-digit" })\<close> prints for a valid
  date in the browser's time zone. On an invalid date \<^verbatim>\<open>toLocaleTimeString\<close> returns the
  string \<^verbatim>\<open>Invalid Date\<close> (ECMA-402, Date.prototype.toLocaleTimeString, step 3).
  \<^verbatim>\<open>new Date(v)\<close> first converts \<open>v\<close> to a primitive; for a value out of a JSON parse that
  conversion throws where the conversion to a string does.
\<close>

record platform =
  Date_new :: "json \<Rightarrow> int option"
  localeTime :: "int \<Rightarrow> string"

definition newDate :: "platform \<Rightarrow> json \<Rightarrow> error + int option" where
  "newDate P v = (case toStr v of Inl e \<Rightarrow> Inl e | Inr str \<Rightarrow> Inr (Date_new P v))"

definition toLocaleTimeString :: "platform \<Rightarrow> int option \<Rightarrow> string" where
  "toLocaleTimeString P d = (case d of None \<Rightarrow> ''Invalid Date'' | Some t \<Rightarrow> localeTime P t)"

section \<open>Feed Normalizer (static/app.js, lines 42 to 74)\<close>

fun isoToLocalKickoff :: "platform \<Rightarrow> jsval \<Rightarrow> error + string" where
  "isoToLocalKickoff P None = Inr []"
| "isoToLocalKickoff P (Some ts) =
     (if \<not> truthy (Some ts) then Inr []
      else (case newDate P ts of
              Inl e \<Rightarrow> Inl e
            | Inr d \<Rightarrow> Inr (toLocaleTimeString P d)))"

datatype status = LIVE | UPCOMING

record match =
  id' :: jsval
  home :: jsval
  away :: jsval
  homeTeam :: string
  awayTeam :: string
  homeGoals :: jsval
  awayGoals :: jsval
  status :: status
  minute :: jsval
  kickoff :: string
  leagueName :: jsval

text \<open>\<^verbatim>\<open>v.trim()\<close>: reading \<^verbatim>\<open>trim\<close> throws on \<^verbatim>\<open>undefined\<close> and \<^verbatim>\<open>null\<close>, and a value that is
  not a string has no \<^verbatim>\<open>trim\<close> to call.\<close>

fun callTrim :: "jsval \<Rightarrow> error + string" where
  "callTrim (Some (Str s)) = Inr (trim s)"
| "callTrim v =
     (case dot v ''trim'' of
        Inl e \<Rightarrow> Inl e
      | Inr t \<Rightarrow> Inl (TypeError ''trim is not a function''))"

text \<open>\<^verbatim>\<open>(a || b || c || "").trim()\<close>.\<close>

definition teamName :: "jsval \<Rightarrow> jsval \<Rightarrow> jsval \<Rightarrow> error + string" where
  "teamName a b c = callTrim (orElse (orElse (orElse a b) c) (Some (Str [])))"

definition toMatchModel :: "platform \<Rightarrow> json \<Rightarrow> error + match" where
  "toMatchModel P f =
     (case dot (Some f) ''homeGoals'' of
        Inl e \<Rightarrow> Inl e
      | Inr fhg \<Rightarrow>
         (let hg = nullish fhg (Some (Num 0));
              ag = nullish (getProp f ''awayGoals'') (Some (Num 0))
          in
          (case isoToLocalKickoff P (getProp f ''kickoffISO'') of
             Inl e \<Rightarrow> Inl e
           | Inr ko \<Rightarrow>
          (case teamName (getProp f ''homeTeam'') (getProp f ''homeName'') (getProp f ''home'') of
             Inl e \<Rightarrow> Inl e
           | Inr ht \<Rightarrow>
          (case teamName (getProp f ''awayTeam'') (getProp f ''awayName'') (getProp f ''away'') of
             Inl e \<Rightarrow> Inl e
           | Inr awt \<Rightarrow>
              (let st = (if truthy (getProp f ''isLive'') then LIVE else UPCOMING);
                   meta = (if truthy (getProp f ''isLive'')
                           then orElse (getProp f ''minute'') (Some (Str []))
                           else (if ko \<noteq> [] then Some (Str (''KO '' @ ko))
                                 else Some (Str [])))
               in Inr \<lparr> id' = getProp f ''id'', home = getProp f ''home'',
                         away = getProp f ''away'', homeTeam = ht, awayTeam = awt,
                         homeGoals = hg, awayGoals = ag, status = st, minute = meta,
                         kickoff = ko, leagueName = None \<rparr>))))))"

section \<open>Snapshot Merger (static/app.js, lines 88 to 105)\<close>

definition leagueKeys :: "string list" where
  "leagueKeys = [''pl'', ''ch'', ''l1'', ''l2'']"

definition leagueNames :: "string \<Rightarrow> jsval" where
  "leagueNames = map_of
     [(''pl'', Str ''Premier League''), (''ch'', Str ''Championship''),
      (''l1'', Str ''League One''), (''l2'', Str ''League Two'')]"

definition defaultBucket :: json where
  "defaultBucket = Obj [(''live'', Arr []), (''upcoming'', Arr [])]"

text \<open>Line 94: \<^verbatim>\<open>leagues?.[key] || { live: [], upcoming: [] }\<close>.\<close>

definition bucketOf :: "jsval \<Rightarrow> string \<Rightarrow> jsval" where
  "bucketOf leagues key = orElse (optDot leagues key) (Some defaultBucket)"

text \<open>Lines 96 to 98: the \<^verbatim>\<open>list\<close> of the loop body.\<close>

definition pickList :: "jsval \<Rightarrow> error + jsval" where
  "pickList bucket =
     (case dot bucket ''live'' of Inl e \<Rightarrow> Inl e | Inr live \<Rightarrow>
      if isArray live \<and> truthy (optDot live ''length'') then Inr live
      else (case dot bucket ''upcoming'' of Inl e \<Rightarrow> Inl e | Inr upcoming \<Rightarrow>
            if isArray upcoming then Inr upcoming else Inr (Some (Arr []))))"

text \<open>Lines 100 to 104: \<^verbatim>\<open>list.map(f => ...)\<close>; a value that is not an array has no
  \<^verbatim>\<open>map\<close>.\<close>

definition stamp :: "platform \<Rightarrow> string \<Rightarrow> json \<Rightarrow> error + match" where
  "stamp P key f =
     (case toMatchModel P f of Inl e \<Rightarrow> Inl e
      | Inr m \<Rightarrow> Inr (m\<lparr>leagueName := leagueNames key\<rparr>))"

fun callMap :: "jsval \<Rightarrow> (json \<Rightarrow> error + 'b) \<Rightarrow> error + 'b list" where
  "callMap (Some (Arr xs)) g = mapE g xs"
| "callMap v g = Inl (TypeError ''map is not a function'')"

definition leagueList :: "platform \<Rightarrow> jsval \<Rightarrow> string \<Rightarrow> error + match list" where
  "leagueList P leagues key =
     (case pickList (bucketOf leagues key) of Inl e \<Rightarrow> Inl e
      | Inr list \<Rightarrow> callMap list (stamp P key))"

text \<open>The loop of line 93 over the four keys: \<open>next\<close> is built key by key, and an
  exception leaves the loop.\<close>

fun buildNext :: "platform \<Rightarrow> jsval \<Rightarrow> string list \<Rightarrow> error + (string \<times> match list) list" where
  "buildNext P leagues [] = Inr []"
| "buildNext P leagues (key # keys) =
     (case leagueList P leagues key of Inl e \<Rightarrow> Inl e
      | Inr ms \<Rightarrow> (case buildNext P leagues keys of Inl e \<Rightarrow> Inl e
                   | Inr rest \<Rightarrow> Inr ((key, ms) # rest)))"

text \<open>Line 89: \<^verbatim>\<open>data?.leagues || {}\<close>.\<close>

definition leaguesOf :: "json \<Rightarrow> jsval" where
  "leaguesOf data = orElse (optDot (Some data) ''leagues'') (Some (Obj []))"

text \<open>Lines 89 to 105: from the parsed body to \<open>next\<close>.\<close>

definition mergeSnapshot :: "platform \<Rightarrow> json \<Rightarrow> error + (string \<times> match list) list" where
  "mergeSnapshot P data = buildNext P (leaguesOf data) leagueKeys"

section \<open>Shared state\<close>

text \<open>
  The state the program keeps between events: the snapshot \<^verbatim>\<open>LIVE_DATA\<close> (an object with
  the keys in insertion order), the two items of \<^verbatim>\<open>localStorage\<close>, and what the page shows:
  the \<^verbatim>\<open>.seg-btn\<close> buttons of \<^verbatim>\<open>#leagueFilter\<close> (absent when the element is), the label of
  \<^verbatim>\<open>#btnFollowAllLive\<close>, the \<^verbatim>\<open>innerHTML\<close> of \<^verbatim>\<open>#followedList\<close> and of \<^verbatim>\<open>#leagues\<close>, the toast,
  and the picture-in-picture window with the \<^verbatim>\<open>innerHTML\<close> of its \<^verbatim>\<open>#pipList\<close>. The event
  listeners a render binds sit on the elements it has just written, so they are a function
  of the \<^verbatim>\<open>innerHTML\<close>. \<open>renderCalls\<close> is a ghost counter, not in the source: it counts the
  calls of \<^verbatim>\<open>render()\<close>. Console output and timers are left out; the elements the script
  looks up without a guard are there, and \<^verbatim>\<open>localStorage\<close> can be read and written.
\<close>

record segBtn =
  dataFilter :: "string option"
  isActive :: bool

record toastElem =
  textContent :: string
  shown :: bool

record pipWindow =
  closed :: bool
  pipList :: "string option"

record state =
  LIVE_DATA :: "(string \<times> match list) list"
  followedItem :: "jtext option"
  filterItem :: "string option"
  leagueFilterEl :: "segBtn list option"
  btnFollowAllLive :: string
  followedEl :: string
  leaguesEl :: string
  toastEl :: "toastElem option"
  pipWin :: "pipWindow option"
  renderCalls :: nat

definition LEAGUES :: "(string \<times> string) list" where
  "LEAGUES = [(''pl'', ''Premier League''), (''ch'', ''Championship''),
              (''l1'', ''League One''), (''l2'', ''League Two'')]"

section \<open>Follow Store and Filter Store (static/app.js, lines 140 to 176)\<close>

text \<open>A \<^verbatim>\<open>Set\<close> is the list of its elements in insertion order.\<close>

definition setHas :: "json list \<Rightarrow> jsval \<Rightarrow> bool" where
  "setHas S x = list_ex (\<lambda>y. strictEq (Some y) x) S"

definition setAdd :: "json list \<Rightarrow> json \<Rightarrow> json list" where
  "setAdd S x = (if setHas S (Some x) then S else S @ [x])"

definition setDelete :: "json list \<Rightarrow> json \<Rightarrow> json list" where
  "setDelete S x = filter (\<lambda>y. \<not> strictEq (Some y) (Some x)) S"

text \<open>\<^verbatim>\<open>new Set(arr)\<close>: \<^verbatim>\<open>null\<close> gives the empty set, an array its elements, a string its
  characters; any other value is not iterable.\<close>

fun newSet :: "json \<Rightarrow> error + json list" where
  "newSet Null = Inr []"
| "newSet (Arr xs) = Inr (foldl setAdd [] xs)"
| "newSet (Str s) = Inr (foldl setAdd [] (map (\<lambda>c. Str [c]) s))"
| "newSet v = Inl (TypeError ''object is not iterable'')"

text \<open>The body of the \<^verbatim>\<open>try\<close> of \<^verbatim>\<open>loadFollowedSet\<close> (lines 142 to 144), and the function
  with its \<^verbatim>\<open>catch\<close>.\<close>

definition loadFollowedSet_try :: "state \<Rightarrow> error + json list" where
  "loadFollowedSet_try s =
     (case (case followedItem s of
              None \<Rightarrow> Inr (Arr [])
            | Some raw \<Rightarrow> if truthyText raw then JSON_parse raw else Inr (Arr [])) of
        Inl e \<Rightarrow> Inl e
      | Inr arr \<Rightarrow> newSet arr)"

definition loadFollowedSet :: "state \<Rightarrow> error + json list" where
  "loadFollowedSet s =
     (case loadFollowedSet_try s of Inl e \<Rightarrow> Inr [] | Inr S \<Rightarrow> Inr S)"

definition saveFollowedSet :: "json list \<Rightarrow> state \<Rightarrow> state" where
  "saveFollowedSet S s = s\<lparr>followedItem := Some (JSON_stringify (Arr S))\<rparr>"

definition loadLeagueFilter :: "state \<Rightarrow> string" where
  "loadLeagueFilter s =
     (case filterItem s of None \<Rightarrow> ''all'' | Some v \<Rightarrow> if v \<noteq> [] then v else ''all'')"

definition saveLeagueFilter :: "string \<Rightarrow> state \<Rightarrow> state" where
  "saveLeagueFilter val s = s\<lparr>filterItem := Some val\<rparr>"

text \<open>\<^verbatim>\<open>allMatches\<close> pairs each match with its \<^verbatim>\<open>leagueId\<close>.\<close>

definition allMatches :: "state \<Rightarrow> (string \<times> match) list" where
  "allMatches s =
     concat (map (\<lambda>(leagueId, matches). map (\<lambda>m. (leagueId, m)) matches) (LIVE_DATA s))"

definition findMatchById :: "state \<Rightarrow> jsval \<Rightarrow> (string \<times> match) option" where
  "findMatchById s i = find (\<lambda>(leagueId, m). strictEq (id' m) i) (allMatches s)"

definition toast :: "string \<Rightarrow> state \<Rightarrow> state" where
  "toast msg s =
     (case toastEl s of None \<Rightarrow> s
      | Some t \<Rightarrow> s\<lparr>toastEl := Some (t\<lparr>textContent := msg, shown := True\<rparr>)\<rparr>)"

section \<open>View Renderer (static/app.js, lines 131 to 137 and 188 to 330)\<close>

definition bullet :: string where
  "bullet = [CHR 0xE2, CHR 0x80, CHR 0xA2]"

definition ldquo :: string where
  "ldquo = [CHR 0xE2, CHR 0x80, CHR 0x9C]"

definition rdquo :: string where
  "rdquo = [CHR 0xE2, CHR 0x80, CHR 0x9D]"

definition timesSign :: string where
  "timesSign = [CHR 0xC3, CHR 0x97]"

definition getAbbr :: "jsval \<Rightarrow> error + string" where
  "getAbbr name =
     (case callTrim name of
        Inl e \<Rightarrow> Inl e
      | Inr trimmed \<Rightarrow>
         (let parts = filter (\<lambda>p. p \<noteq> []) (splitWs trimmed [] False) in
          if length parts = 1 then Inr (toUpperCase (take 3 (hd parts)))
          else Inr (toUpperCase (concat (map (take 1) (take 3 parts))))))"

definition renderFilterControls :: "string \<Rightarrow> state \<Rightarrow> state" where
  "renderFilterControls active s =
     (case leagueFilterEl s of
        None \<Rightarrow> s
      | Some btns \<Rightarrow>
          s\<lparr>leagueFilterEl :=
               Some (map (\<lambda>b. b\<lparr>isActive := (dataFilter b = Some active)\<rparr>) btns)\<rparr>)"

definition renderQuickActions :: "state \<Rightarrow> state" where
  "renderQuickActions s =
     (let liveCount = length (filter (\<lambda>(leagueId, m). status m = LIVE) (allMatches s)) in
      s\<lparr>btnFollowAllLive :=
           (if liveCount > 0 then ''Follow all live ('' @ natStr liveCount @ '')''
            else ''Follow all live'')\<rparr>)"

definition formatScoreline :: "match \<Rightarrow> error + string" where
  "formatScoreline m =
     (if status m = LIVE
      then template [toString (homeGoals m), Inr '' : '', toString (awayGoals m)]
      else Inr ''vs'')"

definition formatRightMeta :: "match \<Rightarrow> error + string" where
  "formatRightMeta m =
     (if status m = LIVE then template [toString (minute m), Inr apos]
      else if status m = UPCOMING then Inr (''KO '' @ kickoff m)
      else Inr [])"

text \<open>\<^verbatim>\<open>m.homeTeam || m.home\<close> inside a template literal.\<close>

definition teamOr :: "string \<Rightarrow> jsval \<Rightarrow> error + string" where
  "teamOr team other = (if team \<noteq> [] then Inr team else toString other)"

text \<open>The followed ids that resolve to a match of the snapshot
  (\<^verbatim>\<open>[...followed].map(id => findMatchById(id)).filter(Boolean)\<close>).\<close>

definition followedMatches :: "state \<Rightarrow> json list \<Rightarrow> (string \<times> match) list" where
  "followedMatches s followed = List.map_filter (\<lambda>i. findMatchById s (Some i)) followed"

text \<open>Lines 226 to 236: one entry of the followed list.\<close>

definition pill :: "match \<Rightarrow> error + string" where
  \<open>pill m =
     (case template [teamOr (homeTeam m) (home m), Inr '' '', formatScoreline m, Inr '' '',
                     teamOr (awayTeam m) (away m)] of
        Inl e \<Rightarrow> Inl e
      | Inr left \<Rightarrow>
     (case formatRightMeta m of
        Inl e \<Rightarrow> Inl e
      | Inr right \<Rightarrow>
          template
            [Inr nl, Inr ''      <div class="pill">'',
             Inr nl, Inr ''        <div>'',
             Inr nl, Inr ''          <b>'', Inr left, Inr ''</b>'',
             Inr nl, Inr ''          <div class="tiny">'', toString (leagueName m), Inr '' '',
                 Inr bullet, Inr '' '', Inr right, Inr ''</div>'',
             Inr nl, Inr ''        </div>'',
             Inr nl, Inr ''        <button class="pill-x pill-x-danger" data-unfollow="'',
                 toString (id' m), Inr ''" title="Unfollow">'', Inr timesSign, Inr ''</button>'',
             Inr nl, Inr ''      </div>'',
             Inr nl, Inr ''    '']))\<close>

text \<open>A renderer that may throw returns the exception, if any, and the state it leaves:
  \<^verbatim>\<open>innerHTML\<close> is assigned after the rows are built, so an exception leaves the element as it
  was.\<close>

definition renderFollowed :: "json list \<Rightarrow> state \<Rightarrow> error option \<times> state" where
  \<open>renderFollowed followed s =
     (let matches = followedMatches s followed in
      if length matches = 0
      then (None, s\<lparr>followedEl := concat
             [''<div class="empty">No followed matches. Tap '', ldquo, ''Follow'', rdquo,
              '' on a match to pin it.</div>'']\<rparr>)
      else (case mapE (\<lambda>(leagueId, m). pill m) matches of
              Inl e \<Rightarrow> (Some e, s)
            | Inr pills \<Rightarrow> (None, s\<lparr>followedEl := concat pills\<rparr>)))\<close>

definition renderMatchRow :: "match \<Rightarrow> string \<times> string \<Rightarrow> json list \<Rightarrow> error + string" where
  \<open>renderMatchRow m lg followed =
     (let isFollowed = setHas followed (id' m) in
      case (if status m = LIVE
            then template [Inr ''<span class="status-live">LIVE</span> '', Inr bullet, Inr '' '',
                           toString (minute m)]
            else toString (minute m)) of
        Inl e \<Rightarrow> Inl e
      | Inr meta \<Rightarrow>
          template
            [Inr nl, Inr ''    <div class="match">'',
             Inr nl, Inr ''      <div class="left">'',
             Inr nl, Inr ''        <div class="row">'',
             Inr nl, Inr ''          <span class="team">'', teamOr (homeTeam m) (home m),
                 Inr ''</span>'',
             Inr nl, Inr ''          <span class="score">'', formatScoreline m, Inr ''</span>'',
             Inr nl, Inr ''          <span class="team">'', teamOr (awayTeam m) (away m),
                 Inr ''</span>'',
             Inr nl, Inr ''        </div>'',
             Inr nl, Inr ''        <div class="meta">'', Inr meta, Inr ''</div>'',
             Inr nl, Inr ''      </div>'',
             Inr nl, Inr ''        <div class="controls">'',
             Inr nl, Inr ''            '',
                 (if isFollowed
                  then template [Inr ''<button class="smallbtn smallbtn-danger" data-unfollow="'',
                                 toString (id' m), Inr ''">Unfollow</button>'']
                  else template [Inr ''<button class="smallbtn" data-follow="'',
                                 toString (id' m), Inr ''">Follow</button>'']),
             Inr nl, Inr ''        </div>'',
             Inr nl, Inr ''    </div>'',
             Inr nl, Inr ''  ''])\<close>

text \<open>Line 254: the leagues a filter value shows.\<close>

definition leaguesToShow :: "string \<Rightarrow> (string \<times> string) list" where
  "leaguesToShow filt =
     (if filt = ''all'' then LEAGUES else filter (\<lambda>l. fst l = filt) LEAGUES)"

text \<open>Lines 256 to 278: the section of one league.\<close>

definition leagueSection :: "state \<Rightarrow> json list \<Rightarrow> string \<times> string \<Rightarrow> error + string" where
  \<open>leagueSection s followed lg =
     (let matches = (case map_of (LIVE_DATA s) (fst lg) of None \<Rightarrow> [] | Some ms \<Rightarrow> ms);
          live = filter (\<lambda>m. status m = LIVE) matches;
          upcoming = filter (\<lambda>m. status m = UPCOMING) matches;
          listToShow = (if length live \<noteq> 0 then live
                        else if length upcoming \<noteq> 0 then upcoming else []);
          badge = (if length live \<noteq> 0 then natStr (length live) @ '' live''
                   else if length upcoming \<noteq> 0 then natStr (length upcoming) @ '' upcoming''
                   else ''No live games'')
      in
      case (if length listToShow \<noteq> 0
            then (case mapE (\<lambda>m. renderMatchRow m lg followed) listToShow of
                    Inl e \<Rightarrow> Inl e
                  | Inr rows \<Rightarrow> Inr (concat [''<div class="matches">'', concat rows, ''</div>'']))
            else Inr ''<div class="matches"><div class="empty">No live games today</div></div>'') of
        Inl e \<Rightarrow> Inl e
      | Inr body \<Rightarrow>
          Inr (concat
            [nl, ''      <section class="league league--'', fst lg, ''">'',
             nl, ''        <div class="league-head">'',
             nl, ''          <h3>'', snd lg, ''</h3>'',
             nl, ''          <div class="badge">'', badge, ''</div>'',
             nl, ''        </div>'',
             nl, ''        '', body,
             nl, ''      </section>'',
             nl, ''    '']))\<close>

definition renderLeagues :: "json list \<Rightarrow> string \<Rightarrow> state \<Rightarrow> error option \<times> state" where
  "renderLeagues followed filt s =
     (case mapE (leagueSection s followed) (leaguesToShow filt) of
        Inl e \<Rightarrow> (Some e, s)
      | Inr sections \<Rightarrow> (None, s\<lparr>leaguesEl := concat sections\<rparr>))"

text \<open>Lines 465 to 469: one row of the pinned window.\<close>

definition pipRow :: "match \<Rightarrow> error + string" where
  \<open>pipRow m =
     (case getAbbr (home m) of
        Inl e \<Rightarrow> Inl e
      | Inr h \<Rightarrow>
     (case formatScoreline m of
        Inl e \<Rightarrow> Inl e
      | Inr score \<Rightarrow>
     (case getAbbr (away m) of
        Inl e \<Rightarrow> Inl e
      | Inr a \<Rightarrow>
     (case (if status m = LIVE then template [toString (minute m), Inr apos]
            else if status m = UPCOMING then Inr (''KO '' @ kickoff m) else Inr []) of
        Inl e \<Rightarrow> Inl e
      | Inr right \<Rightarrow>
          Inr (concat [''<div class="row"><div class="left">'', h, '' '', score, '' '', a,
                       ''</div><div class="right">'', right, ''</div></div>''])))))\<close>

definition renderPinnedWindow :: "json list \<Rightarrow> state \<Rightarrow> error option \<times> state" where
  \<open>renderPinnedWindow followed s =
     (case pipWin s of
        None \<Rightarrow> (None, s)
      | Some w \<Rightarrow>
          if closed w then (None, s)
          else (case pipList w of
                  None \<Rightarrow> (None, s)
                | Some old \<Rightarrow>
                   (let matches = followedMatches s followed in
                    if length matches = 0
                    then (None, s\<lparr>pipWin := Some (w\<lparr>pipList :=
                            Some ''<div class="empty">No followed matches</div>''\<rparr>)\<rparr>)
                    else (case mapE (\<lambda>(leagueId, m). pipRow m) matches of
                            Inl e \<Rightarrow> (Some e, s)
                          | Inr rows \<Rightarrow>
                              (None, s\<lparr>pipWin := Some (w\<lparr>pipList := Some (concat rows)\<rparr>)\<rparr>)))))\<close>

text \<open>One statement after another: an exception of the first ends the function.\<close>

definition thenDo ::
  "error option \<times> state \<Rightarrow> (state \<Rightarrow> error option \<times> state) \<Rightarrow> error option \<times> state" where
  "thenDo r g = (case r of (None, s) \<Rightarrow> g s | (Some e, s) \<Rightarrow> (Some e, s))"

definition render :: "state \<Rightarrow> error option \<times> state" where
  "render s0 =
     (let s = s0\<lparr>renderCalls := renderCalls s0 + 1\<rparr> in
      case loadFollowedSet s of
        Inl e \<Rightarrow> (Some e, s)
      | Inr followed \<Rightarrow>
         (let filt = loadLeagueFilter s;
              s1 = renderFilterControls filt s;
              s2 = renderQuickActions s1
          in thenDo (thenDo (renderFollowed followed s2) (renderLeagues followed filt))
               (renderPinnedWindow followed)))"

section \<open>Follow mutation (static/app.js, lines 333 to 339)\<close>

text \<open>The id is the string of a \<^verbatim>\<open>data-follow\<close> or \<^verbatim>\<open>data-unfollow\<close> attribute.\<close>

definition toggleFollow :: "string \<Rightarrow> bool \<Rightarrow> state \<Rightarrow> error option \<times> state" where
  "toggleFollow matchId shouldFollow s =
     (case loadFollowedSet s of
        Inl e \<Rightarrow> (Some e, s)
      | Inr set0 \<Rightarrow>
         (let set1 = (if shouldFollow then setAdd set0 (Str matchId)
                      else setDelete set0 (Str matchId))
          in render (saveFollowedSet set1 s)))"

section \<open>Poller (static/app.js, lines 78 to 128)\<close>

text \<open>What \<^verbatim>\<open>fetch\<close> gives in one poll cycle: a rejection (the transport failed), or a
  response with its status and its body.\<close>

datatype response = Rejected string | Response nat jtext

definition ok :: "nat \<Rightarrow> bool" where
  "ok st = (200 \<le> st \<and> st \<le> 299)"

definition fetchScores :: "platform \<Rightarrow> response \<Rightarrow> state \<Rightarrow> error option \<times> state" where
  "fetchScores P res s =
     (case res of
        Rejected msg \<Rightarrow> (Some (TypeError msg), s)
      | Response st body \<Rightarrow>
          if \<not> ok st then (Some (Error (''API error '' @ natStr st)), s)
          else (case JSON_parse body of
                  Inl e \<Rightarrow> (Some e, s)
                | Inr data \<Rightarrow>
                   (case mergeSnapshot P data of
                      Inl e \<Rightarrow> (Some e, s)
                    | Inr nxt \<Rightarrow> render (s\<lparr>LIVE_DATA := nxt\<rparr>))))"

text \<open>The \<^verbatim>\<open>run\<close> of \<^verbatim>\<open>startPolling\<close>: one poll cycle with its \<^verbatim>\<open>catch\<close>.\<close>

definition run :: "platform \<Rightarrow> response \<Rightarrow> state \<Rightarrow> state" where
  "run P res s =
     (case fetchScores P res s of
        (None, s') \<Rightarrow> s'
      | (Some e, s') \<Rightarrow> toast (if message e \<noteq> [] then message e else ''Fetch failed'') s')"

text \<open>\<^verbatim>\<open>startPolling\<close>: the first cycle and the cycles of the interval, one response each.\<close>

definition startPolling :: "platform \<Rightarrow> response list \<Rightarrow> state \<Rightarrow> state" where
  "startPolling P ress s = foldl (\<lambda>st res. run P res st) s ress"

section \<open>The other revision of the feed code (unnamed/part_000, lines 21 to 59)\<close>

text \<open>
  The second source file is another revision of the same script. Its \<^verbatim>\<open>isoToLocalKickoff\<close>,
  \<^verbatim>\<open>getAbbr\<close>, \<^verbatim>\<open>loadFollowedSet\<close>, \<^verbatim>\<open>saveFollowedSet\<close>, \<^verbatim>\<open>loadLeagueFilter\<close>, \<^verbatim>\<open>toggleFollow\<close> and
  the body of \<^verbatim>\<open>render\<close> are, word for word, the ones above; the rows its renderers write
  differ in markup. Its \<^verbatim>\<open>toMatchModel\<close> and the loop of its \<^verbatim>\<open>fetchScores\<close> differ in what they
  accept: they are modelled here, with the suffix \<open>part000\<close>.
\<close>

record match000 =
  id000 :: jsval
  home000 :: jsval
  away000 :: jsval
  homeGoals000 :: jsval
  awayGoals000 :: jsval
  status000 :: status
  minute000 :: jsval

text \<open>Lines 27 to 29: the kickoff is formatted for a record that is not live only, and
  then twice.\<close>

definition meta_part000 :: "platform \<Rightarrow> json \<Rightarrow> error + jsval" where
  "meta_part000 P f =
     (if truthy (getProp f ''isLive'') then Inr (orElse (getProp f ''minute'') (Some (Str [])))
      else (case isoToLocalKickoff P (getProp f ''kickoffISO'') of
              Inl e \<Rightarrow> Inl e
            | Inr ko \<Rightarrow>
                if ko \<noteq> []
                then (case isoToLocalKickoff P (getProp f ''kickoffISO'') of
                        Inl e \<Rightarrow> Inl e
                      | Inr ko2 \<Rightarrow> Inr (Some (Str (''KO '' @ ko2))))
                else Inr (Some (Str []))))"

definition toMatchModel_part000 :: "platform \<Rightarrow> json \<Rightarrow> error + match000" where
  "toMatchModel_part000 P f =
     (case dot (Some f) ''homeGoals'' of
        Inl e \<Rightarrow> Inl e
      | Inr fhg \<Rightarrow>
         (let hg = nullish fhg (Some (Num 0));
              ag = nullish (getProp f ''awayGoals'') (Some (Num 0));
              st = (if truthy (getProp f ''isLive'') then LIVE else UPCOMING)
          in
          (case meta_part000 P f of
             Inl e \<Rightarrow> Inl e
           | Inr meta \<Rightarrow>
               Inr \<lparr> id000 = getProp f ''id'', home000 = getProp f ''home'',
                     away000 = getProp f ''away'', homeGoals000 = hg, awayGoals000 = ag,
                     status000 = st, minute000 = meta \<rparr>)))"

text \<open>Line 53: \<^verbatim>\<open>(bucket.live && bucket.live.length) ? bucket.live : (bucket.upcoming || [])\<close>.\<close>

definition pickList_part000 :: "jsval \<Rightarrow> error + jsval" where
  "pickList_part000 bucket =
     (case dot bucket ''live'' of
        Inl e \<Rightarrow> Inl e
      | Inr live \<Rightarrow>
          if truthy live \<and> truthy (optDot live ''length'') then Inr live
          else (case dot bucket ''upcoming'' of
                  Inl e \<Rightarrow> Inl e
                | Inr upcoming \<Rightarrow> Inr (orElse upcoming (Some (Arr [])))))"

text \<open>Lines 52 to 54: the body of the loop; \<^verbatim>\<open>leagues[key]\<close> throws when \<^verbatim>\<open>leagues\<close> is
  \<^verbatim>\<open>undefined\<close> or \<^verbatim>\<open>null\<close>.\<close>

definition leagueList_part000 :: "platform \<Rightarrow> jsval \<Rightarrow> string \<Rightarrow> error + match000 list" where
  "leagueList_part000 P leagues key =
     (case dot leagues key of
        Inl e \<Rightarrow> Inl e
      | Inr bucket \<Rightarrow>
         (case pickList_part000 bucket of
            Inl e \<Rightarrow> Inl e
          | Inr list \<Rightarrow> callMap list (toMatchModel_part000 P)))"

fun buildNext_part000 ::
  "platform \<Rightarrow> jsval \<Rightarrow> string list \<Rightarrow> error + (string \<times> match000 list) list" where
  "buildNext_part000 P leagues [] = Inr []"
| "buildNext_part000 P leagues (key # keys) =
     (case leagueList_part000 P leagues key of Inl e \<Rightarrow> Inl e
      | Inr ms \<Rightarrow> (case buildNext_part000 P leagues keys of Inl e \<Rightarrow> Inl e
                   | Inr rest \<Rightarrow> Inr ((key, ms) # rest)))"

text \<open>Lines 48 to 55: from the parsed body to \<open>next\<close>.\<close>

definition mergeSnapshot_part000 ::
  "platform \<Rightarrow> json \<Rightarrow> error + (string \<times> match000 list) list" where
  "mergeSnapshot_part000 P data =
     (case dot (Some data) ''leagues'' of
        Inl e \<Rightarrow> Inl e
      | Inr leagues \<Rightarrow> buildNext_part000 P leagues leagueKeys)"

section \<open>The selection rule in the words of the specification\<close>

text \<open>The bucket of a league in a feed response, \<^verbatim>\<open>undefined\<close> when there is none.\<close>

definition bucketAt :: "json \<Rightarrow> string \<Rightarrow> jsval" where
  "bucketAt data key = optDot (optDot (Some data) ''leagues'') key"

text \<open>The live array if it is a non-empty array; otherwise the upcoming array if present;
  otherwise the empty list.\<close>

definition spec_matchList :: "jsval \<Rightarrow> json list" where
  "spec_matchList bucket =
     (case optDot bucket ''live'' of
        Some (Arr (x # xs)) \<Rightarrow> x # xs
      | _ \<Rightarrow> (case optDot bucket ''upcoming'' of Some (Arr ys) \<Rightarrow> ys | _ \<Rightarrow> []))"

text \<open>A bucket as the feed is meant to send it: an object whose \<^verbatim>\<open>live\<close> and \<^verbatim>\<open>upcoming\<close> fields
  are arrays, either of them possibly absent.\<close>

definition wellFormedBucket :: "jsval \<Rightarrow> bool" where
  "wellFormedBucket bucket =
     (case bucket of
        Some (Obj kvs) \<Rightarrow>
          (map_of kvs ''live'' = None \<or> isArray (map_of kvs ''live'')) \<and>
          (map_of kvs ''upcoming'' = None \<or> isArray (map_of kvs ''upcoming''))
      | _ \<Rightarrow> False)"

text \<open>A bucket that is missing or malformed: the key is absent, the value is not an object,
  or neither its \<^verbatim>\<open>live\<close> nor its \<^verbatim>\<open>upcoming\<close> field is an array.\<close>

definition malformedBucket :: "jsval \<Rightarrow> bool" where
  "malformedBucket bucket =
     (case bucket of
        Some (Obj kvs) \<Rightarrow> \<not> isArray (map_of kvs ''live'') \<and> \<not> isArray (map_of kvs ''upcoming'')
      | _ \<Rightarrow> True)"

section \<open>Auxiliary definitions\<close>

text \<open>A list that holds no primitive value twice: what a \<^verbatim>\<open>Set\<close> can hold.\<close>

definition uniq :: "json list \<Rightarrow> bool" where
  "uniq S = distinct (filter (\<lambda>x. primitive (Some x)) S)"

text \<open>The two renderers that cannot throw, in the order \<^verbatim>\<open>render\<close> calls them.\<close>

definition paintControls :: "string \<Rightarrow> state \<Rightarrow> state" where
  "paintControls filt s = renderQuickActions (renderFilterControls filt s)"

text \<open>The state after the first two renderers of a call of \<^verbatim>\<open>render\<close>.\<close>

definition painted :: "state \<Rightarrow> state" where
  "painted s = paintControls (loadLeagueFilter s) (s\<lparr>renderCalls := renderCalls s + 1\<rparr>)"

text \<open>What a renderer assigns to its element, or the exception it throws before the
  assignment.\<close>

definition followedHtml :: "state \<Rightarrow> json list \<Rightarrow> error + string" where
  "followedHtml s F =
     (case renderFollowed F s of (Some e, t) \<Rightarrow> Inl e | (None, t) \<Rightarrow> Inr (followedEl t))"

definition leaguesHtml :: "state \<Rightarrow> json list \<Rightarrow> string \<Rightarrow> error + string" where
  "leaguesHtml s F filt =
     (case renderLeagues F filt s of (Some e, t) \<Rightarrow> Inl e | (None, t) \<Rightarrow> Inr (leaguesEl t))"

definition pinnedWin :: "state \<Rightarrow> json list \<Rightarrow> error + pipWindow option" where
  "pinnedWin s F =
     (case renderPinnedWindow F s of (Some e, t) \<Rightarrow> Inl e | (None, t) \<Rightarrow> Inr (pipWin t))"

section \<open>Concrete inputs\<close>

text \<open>A platform on which one timestamp parses, to 15:00 local time, and nothing else
  does.\<close>

definition samplePlatform :: platform where
  "samplePlatform =
     \<lparr> Date_new = (\<lambda>v. if v = Str ''2024-03-09T15:00:00Z'' then Some 1709996400000 else None),
       localeTime = (\<lambda>t. ''15:00'') \<rparr>"

definition liveRecord :: json where
  "liveRecord = Obj [(''id'', Str ''m1''), (''home'', Str ''Arsenal''), (''away'', Str ''Chelsea''),
                     (''homeGoals'', Num 1), (''awayGoals'', Num 0), (''isLive'', Bool True),
                     (''minute'', Str ''23'')]"

definition upcomingRecord :: json where
  "upcomingRecord = Obj [(''id'', Str ''m2''), (''home'', Str ''Hull City''),
                         (''away'', Str ''Leeds United''), (''isLive'', Bool False),
                         (''kickoffISO'', Str ''2024-03-09T15:00:00Z'')]"

definition badTimeRecord :: json where
  "badTimeRecord = Obj [(''id'', Str ''m3''), (''home'', Str ''Bury''), (''away'', Str ''Wigan''),
                        (''isLive'', Bool False), (''kickoffISO'', Str ''not-a-date'')]"

text \<open>A record whose timestamp is the object \<^verbatim>\<open>{"toString": 1}\<close>, and the same record with a
  timestamp that parses, and with the timestamp \<^verbatim>\<open>null\<close>.\<close>

definition objectTimeRecord :: json where
  "objectTimeRecord = Obj [(''id'', Str ''m4''), (''home'', Str ''Luton''), (''away'', Str ''Derby''),
                           (''isLive'', Bool False),
                           (''kickoffISO'', Obj [(''toString'', Num 1)])]"

definition stringTimeRecord :: json where
  "stringTimeRecord = Obj [(''id'', Str ''m4''), (''home'', Str ''Luton''), (''away'', Str ''Derby''),
                           (''isLive'', Bool False),
                           (''kickoffISO'', Str ''2024-03-09T15:00:00Z'')]"

definition nullTimeRecord :: json where
  "nullTimeRecord = Obj [(''id'', Str ''m4''), (''home'', Str ''Luton''), (''away'', Str ''Derby''),
                         (''isLive'', Bool False), (''kickoffISO'', Null)]"

text \<open>A response body with the four buckets, and one with the bucket of \<^verbatim>\<open>pl\<close> only.\<close>

definition fullFeed :: json where
  "fullFeed = Obj [(''leagues'', Obj
     [(''pl'', Obj [(''live'', Arr [liveRecord]), (''upcoming'', Arr [upcomingRecord])]),
      (''ch'', Obj [(''live'', Arr []), (''upcoming'', Arr [])]),
      (''l1'', Obj [(''upcoming'', Arr [upcomingRecord])]),
      (''l2'', Obj [])])]"

definition plOnlyFeed :: json where
  "plOnlyFeed = Obj [(''leagues'', Obj
     [(''pl'', Obj [(''live'', Arr [liveRecord]), (''upcoming'', Arr [])])])]"

text \<open>The page as the script finds it, with the pinned window open, and the same page
  with stored values.\<close>

definition initialState :: state where
  "initialState =
     \<lparr> LIVE_DATA = [(''pl'', []), (''ch'', []), (''l1'', []), (''l2'', [])],
       followedItem = None,
       filterItem = None,
       leagueFilterEl = Some [\<lparr>dataFilter = Some ''all'', isActive = True\<rparr>,
                              \<lparr>dataFilter = Some ''pl'', isActive = False\<rparr>],
       btnFollowAllLive = ''Follow all live'',
       followedEl = [],
       leaguesEl = [],
       toastEl = Some \<lparr>textContent = [], shown = False\<rparr>,
       pipWin = Some \<lparr>closed = False, pipList = Some []\<rparr>,
       renderCalls = 0 \<rparr>"

definition followingM1 :: state where
  "followingM1 = initialState\<lparr>followedItem := Some (JsonText (Arr [Str ''m1'']))\<rparr>"

definition corruptStore :: state where
  "corruptStore = initialState\<lparr>followedItem := Some (Text ''[m1,'')\<rparr>"

definition unknownFilter :: state where
  "unknownFilter = initialState\<lparr>filterItem := Some ''xyz''\<rparr>"

text \<open>The page of a user who follows \<^verbatim>\<open>m1\<close> and \<^verbatim>\<open>m9\<close>, after a poll that brought the full feed:
  \<^verbatim>\<open>m1\<close> is in the snapshot, \<^verbatim>\<open>m9\<close> is not.\<close>

definition polledState :: state where
  "polledState =
     run samplePlatform (Response 200 (JsonText fullFeed))
       (initialState\<lparr>followedItem := Some (JsonText (Arr [Str ''m1'', Str ''m9'']))\<rparr>)"
section \<open>Auxiliary lemmas\<close>

lemma setHas_iff: "setHas S (Some x) \<longleftrightarrow> primitive (Some x) \<and> x \<in> set S"
  by (auto simp: setHas_def strictEq_def list_ex_iff)

lemma setHas_undefined: "\<not> setHas S None"
  by (auto simp: setHas_def strictEq_def list_ex_iff)

lemma uniq_setAdd: "uniq S \<Longrightarrow> uniq (setAdd S x)"
  by (auto simp: uniq_def setAdd_def setHas_iff)

lemma uniq_foldl_setAdd: "uniq acc \<Longrightarrow> uniq (foldl setAdd acc xs)"
  by (induction xs arbitrary: acc) (simp_all add: uniq_setAdd)

lemma foldl_setAdd_uniq: "uniq (acc @ S) \<Longrightarrow> foldl setAdd acc S = acc @ S"
proof (induction S arbitrary: acc)
  case Nil
  then show ?case by simp
next
  case (Cons x S)
  have "setAdd acc x = acc @ [x]"
    using Cons.prems by (auto simp: setAdd_def setHas_iff uniq_def)
  then show ?case using Cons.IH [of "acc @ [x]"] Cons.prems by simp
qed

lemma uniq_Nil: "uniq []"
  by (simp add: uniq_def)

lemma uniq_newSet: "newSet v = Inr S \<Longrightarrow> uniq S"
  by (cases v) (auto intro: uniq_foldl_setAdd uniq_Nil)

lemma loadFollowedSet_total: "\<exists>S. loadFollowedSet s = Inr S"
  by (simp add: loadFollowedSet_def split: sum.splits)

lemma loadFollowedSet_uniq: "loadFollowedSet s = Inr S \<Longrightarrow> uniq S"
  by (auto simp: loadFollowedSet_def loadFollowedSet_try_def uniq_Nil
      split: sum.splits dest: uniq_newSet)

lemma loadFollowedSet_saved:
  "uniq S \<Longrightarrow> loadFollowedSet (saveFollowedSet S s) = Inr S"
  by (simp add: loadFollowedSet_def loadFollowedSet_try_def saveFollowedSet_def
      JSON_stringify_def foldl_setAdd_uniq)

lemma loadFollowedSet_cong:
  "followedItem s = followedItem t \<Longrightarrow> loadFollowedSet s = loadFollowedSet t"
  by (simp add: loadFollowedSet_def loadFollowedSet_try_def)

lemma uniq_setDelete: "uniq S \<Longrightarrow> uniq (setDelete S x)"
proof -
  have "filter (\<lambda>y. primitive (Some y)) (filter (\<lambda>y. \<not> strictEq (Some y) (Some x)) S) =
        filter (\<lambda>y. \<not> strictEq (Some y) (Some x)) (filter (\<lambda>y. primitive (Some y)) S)"
    by (simp add: conj_commute)
  then show "uniq S \<Longrightarrow> uniq (setDelete S x)"
    by (simp only: uniq_def setDelete_def distinct_filter)
qed

lemma allMatches_upd [simp]:
  "allMatches (s\<lparr>renderCalls := n\<rparr>) = allMatches s"
  "allMatches (s\<lparr>leagueFilterEl := a\<rparr>) = allMatches s"
  "allMatches (s\<lparr>btnFollowAllLive := b\<rparr>) = allMatches s"
  "allMatches (s\<lparr>followedEl := c\<rparr>) = allMatches s"
  "allMatches (s\<lparr>leaguesEl := d\<rparr>) = allMatches s"
  "allMatches (s\<lparr>pipWin := w\<rparr>) = allMatches s"
  "allMatches (s\<lparr>toastEl := t\<rparr>) = allMatches s"
  by (simp_all add: allMatches_def)

lemma followedMatches_upd [simp]:
  "followedMatches (s\<lparr>renderCalls := n\<rparr>) F = followedMatches s F"
  "followedMatches (s\<lparr>leagueFilterEl := a\<rparr>) F = followedMatches s F"
  "followedMatches (s\<lparr>btnFollowAllLive := b\<rparr>) F = followedMatches s F"
  "followedMatches (s\<lparr>followedEl := c\<rparr>) F = followedMatches s F"
  "followedMatches (s\<lparr>leaguesEl := d\<rparr>) F = followedMatches s F"
  "followedMatches (s\<lparr>pipWin := w\<rparr>) F = followedMatches s F"
  "followedMatches (s\<lparr>toastEl := t\<rparr>) F = followedMatches s F"
  by (simp_all add: followedMatches_def findMatchById_def)

lemma leagueSection_upd [simp]:
  "leagueSection (s\<lparr>renderCalls := n\<rparr>) = leagueSection s"
  "leagueSection (s\<lparr>leagueFilterEl := a\<rparr>) = leagueSection s"
  "leagueSection (s\<lparr>btnFollowAllLive := b\<rparr>) = leagueSection s"
  "leagueSection (s\<lparr>followedEl := c\<rparr>) = leagueSection s"
  "leagueSection (s\<lparr>leaguesEl := d\<rparr>) = leagueSection s"
  "leagueSection (s\<lparr>pipWin := w\<rparr>) = leagueSection s"
  "leagueSection (s\<lparr>toastEl := t\<rparr>) = leagueSection s"
  by (simp_all add: leagueSection_def fun_eq_iff)

lemma loadFollowedSet_upd [simp]:
  "loadFollowedSet (s\<lparr>renderCalls := n\<rparr>) = loadFollowedSet s"
  "loadFollowedSet (s\<lparr>leagueFilterEl := a\<rparr>) = loadFollowedSet s"
  "loadFollowedSet (s\<lparr>btnFollowAllLive := b\<rparr>) = loadFollowedSet s"
  "loadFollowedSet (s\<lparr>followedEl := c\<rparr>) = loadFollowedSet s"
  "loadFollowedSet (s\<lparr>leaguesEl := d\<rparr>) = loadFollowedSet s"
  "loadFollowedSet (s\<lparr>pipWin := w\<rparr>) = loadFollowedSet s"
  "loadFollowedSet (s\<lparr>toastEl := t\<rparr>) = loadFollowedSet s"
  "loadFollowedSet (s\<lparr>LIVE_DATA := l\<rparr>) = loadFollowedSet s"
  by (simp_all add: loadFollowedSet_def loadFollowedSet_try_def)

lemma loadLeagueFilter_upd [simp]:
  "loadLeagueFilter (s\<lparr>renderCalls := n\<rparr>) = loadLeagueFilter s"
  "loadLeagueFilter (s\<lparr>leagueFilterEl := a\<rparr>) = loadLeagueFilter s"
  "loadLeagueFilter (s\<lparr>btnFollowAllLive := b\<rparr>) = loadLeagueFilter s"
  "loadLeagueFilter (s\<lparr>followedEl := c\<rparr>) = loadLeagueFilter s"
  "loadLeagueFilter (s\<lparr>leaguesEl := d\<rparr>) = loadLeagueFilter s"
  "loadLeagueFilter (s\<lparr>pipWin := w\<rparr>) = loadLeagueFilter s"
  "loadLeagueFilter (s\<lparr>toastEl := t\<rparr>) = loadLeagueFilter s"
  "loadLeagueFilter (s\<lparr>LIVE_DATA := l\<rparr>) = loadLeagueFilter s"
  by (simp_all add: loadLeagueFilter_def)

lemma renderFilterControls_eq:
  "renderFilterControls a s =
     s\<lparr>leagueFilterEl := map_option (map (\<lambda>b. b\<lparr>isActive := (dataFilter b = Some a)\<rparr>)) (leagueFilterEl s)\<rparr>"
  by (cases "leagueFilterEl s") (simp_all add: renderFilterControls_def)

lemma paintControls_eq:
  "paintControls a s =
     s\<lparr>leagueFilterEl := map_option (map (\<lambda>b. b\<lparr>isActive := (dataFilter b = Some a)\<rparr>)) (leagueFilterEl s),
       btnFollowAllLive := btnFollowAllLive (renderQuickActions s)\<rparr>"
  by (simp add: paintControls_def renderFilterControls_eq renderQuickActions_def Let_def)

lemma renderQuickActions_cong:
  "LIVE_DATA s' = LIVE_DATA s \<Longrightarrow>
     btnFollowAllLive (renderQuickActions s') = btnFollowAllLive (renderQuickActions s)"
  by (simp add: renderQuickActions_def allMatches_def Let_def)

lemma followedMatches_cong:
  "LIVE_DATA s' = LIVE_DATA s \<Longrightarrow> followedMatches s' F = followedMatches s F"
  by (simp add: followedMatches_def findMatchById_def allMatches_def)

lemma leagueSection_cong:
  "LIVE_DATA s' = LIVE_DATA s \<Longrightarrow> leagueSection s' = leagueSection s"
  by (simp add: leagueSection_def fun_eq_iff)

lemma renderFollowed_eq:
  "renderFollowed F s =
     (case followedHtml s F of Inl e \<Rightarrow> (Some e, s) | Inr h \<Rightarrow> (None, s\<lparr>followedEl := h\<rparr>))"
  by (simp add: followedHtml_def renderFollowed_def Let_def split: sum.splits)

lemma renderLeagues_eq:
  "renderLeagues F filt s =
     (case leaguesHtml s F filt of Inl e \<Rightarrow> (Some e, s) | Inr h \<Rightarrow> (None, s\<lparr>leaguesEl := h\<rparr>))"
  by (simp add: leaguesHtml_def renderLeagues_def split: sum.splits)

lemma renderPinnedWindow_eq:
  "renderPinnedWindow F s =
     (case pinnedWin s F of Inl e \<Rightarrow> (Some e, s) | Inr w \<Rightarrow> (None, s\<lparr>pipWin := w\<rparr>))"
  by (simp add: pinnedWin_def renderPinnedWindow_def Let_def split: sum.splits option.splits)
lemma followedHtml_cong:
  "LIVE_DATA s' = LIVE_DATA s \<Longrightarrow> followedHtml s' F = followedHtml s F"
  by (simp add: followedHtml_def renderFollowed_def Let_def followedMatches_cong [of s' s]
      split: sum.splits)

lemma leaguesHtml_cong:
  "LIVE_DATA s' = LIVE_DATA s \<Longrightarrow> leaguesHtml s' F filt = leaguesHtml s F filt"
  by (simp add: leaguesHtml_def renderLeagues_def leagueSection_cong [of s' s] split: sum.splits)

lemma pinnedWin_cong:
  "LIVE_DATA s' = LIVE_DATA s \<Longrightarrow> pipWin s' = pipWin s \<Longrightarrow> pinnedWin s' F = pinnedWin s F"
  by (simp add: pinnedWin_def renderPinnedWindow_def Let_def followedMatches_cong [of s' s]
      split: sum.splits option.splits)

lemma pinnedWin_again:
  "pinnedWin s F = Inr w \<Longrightarrow> LIVE_DATA s' = LIVE_DATA s \<Longrightarrow> pipWin s' = w \<Longrightarrow>
     pinnedWin s' F = Inr w"
  by (auto simp: pinnedWin_def renderPinnedWindow_def Let_def followedMatches_cong [of s' s]
      split: sum.splits option.splits if_splits)

lemma thenDo_simps:
  "thenDo (None, s) g = g s"
  "thenDo (Some e, s) g = (Some e, s)"
  by (simp_all add: thenDo_def)

lemma paintControls_frame:
  "LIVE_DATA (paintControls a s) = LIVE_DATA s"
  "followedItem (paintControls a s) = followedItem s"
  "filterItem (paintControls a s) = filterItem s"
  "pipWin (paintControls a s) = pipWin s"
  "renderCalls (paintControls a s) = renderCalls s"
  "toastEl (paintControls a s) = toastEl s"
  "followedEl (paintControls a s) = followedEl s"
  "leaguesEl (paintControls a s) = leaguesEl s"
  by (simp_all add: paintControls_eq)
lemma painted_frame:
  "LIVE_DATA (painted s) = LIVE_DATA s"
  "followedItem (painted s) = followedItem s"
  "filterItem (painted s) = filterItem s"
  "pipWin (painted s) = pipWin s"
  "renderCalls (painted s) = renderCalls s + 1"
  "toastEl (painted s) = toastEl s"
  "followedEl (painted s) = followedEl s"
  "leaguesEl (painted s) = leaguesEl s"
  by (simp_all add: painted_def paintControls_frame)

text \<open>The four ways a call of \<^verbatim>\<open>render\<close> ends.\<close>

lemma render_eq:
  assumes "loadFollowedSet s = Inr F"
  shows "render s =
     (case followedHtml s F of
        Inl e \<Rightarrow> (Some e, painted s)
      | Inr h \<Rightarrow>
         (case leaguesHtml s F (loadLeagueFilter s) of
            Inl e \<Rightarrow> (Some e, (painted s)\<lparr>followedEl := h\<rparr>)
          | Inr l \<Rightarrow>
             (case pinnedWin s F of
                Inl e \<Rightarrow> (Some e, (painted s)\<lparr>followedEl := h, leaguesEl := l\<rparr>)
              | Inr w \<Rightarrow> (None, (painted s)\<lparr>followedEl := h, leaguesEl := l, pipWin := w\<rparr>))))"
proof -
  define c where "c = painted s"
  have L: "LIVE_DATA c = LIVE_DATA s" and W: "pipWin c = pipWin s"
    by (simp_all add: c_def painted_frame)
  have fh: "followedHtml c F = followedHtml s F" using L by (rule followedHtml_cong)
  have lh: "leaguesHtml (c\<lparr>followedEl := h\<rparr>) F a = leaguesHtml s F a" for h a
    by (rule leaguesHtml_cong) (simp add: L)
  have pw: "pinnedWin (c\<lparr>followedEl := h, leaguesEl := l\<rparr>) F = pinnedWin s F" for h l
    by (rule pinnedWin_cong) (simp_all add: L W)
  have r: "render s =
      thenDo (thenDo (renderFollowed F c) (renderLeagues F (loadLeagueFilter s)))
        (renderPinnedWindow F)"
    by (simp only: render_def Let_def loadFollowedSet_upd loadLeagueFilter_upd assms sum.case
        paintControls_def c_def painted_def)
  have "render s =
     (case followedHtml s F of
        Inl e \<Rightarrow> (Some e, c)
      | Inr h \<Rightarrow>
         (case leaguesHtml s F (loadLeagueFilter s) of
            Inl e \<Rightarrow> (Some e, c\<lparr>followedEl := h\<rparr>)
          | Inr l \<Rightarrow>
             (case pinnedWin s F of
                Inl e \<Rightarrow> (Some e, c\<lparr>followedEl := h, leaguesEl := l\<rparr>)
              | Inr w \<Rightarrow> (None, c\<lparr>followedEl := h, leaguesEl := l, pipWin := w\<rparr>))))"
    unfolding r
    by (simp add: renderFollowed_eq renderLeagues_eq renderPinnedWindow_eq fh lh pw thenDo_simps
        split: sum.splits)
  then show ?thesis by (simp only: c_def)
qed

lemma render_cases:
  assumes "render s = (e, t)" and "loadFollowedSet s = Inr F"
  obtains
    (followed) e1 where "followedHtml s F = Inl e1" and "e = Some e1" and "t = painted s"
  | (leagues) h e2 where "followedHtml s F = Inr h"
      and "leaguesHtml s F (loadLeagueFilter s) = Inl e2" and "e = Some e2"
      and "t = (painted s)\<lparr>followedEl := h\<rparr>"
  | (pinned) h l e3 where "followedHtml s F = Inr h"
      and "leaguesHtml s F (loadLeagueFilter s) = Inr l" and "pinnedWin s F = Inl e3"
      and "e = Some e3" and "t = (painted s)\<lparr>followedEl := h, leaguesEl := l\<rparr>"
  | (shown) h l w where "followedHtml s F = Inr h"
      and "leaguesHtml s F (loadLeagueFilter s) = Inr l" and "pinnedWin s F = Inr w"
      and "e = None" and "t = (painted s)\<lparr>followedEl := h, leaguesEl := l, pipWin := w\<rparr>"
  using assms(1) unfolding render_eq [OF assms(2)]
  by (auto split: sum.splits)

lemma painted_again:
  assumes "LIVE_DATA t = LIVE_DATA s" and "filterItem t = filterItem s"
    and "leagueFilterEl t = leagueFilterEl (painted s)"
    and "btnFollowAllLive t = btnFollowAllLive (painted s)"
  shows "painted t = t\<lparr>renderCalls := renderCalls t + 1\<rparr>"
proof -
  have f: "loadLeagueFilter t = loadLeagueFilter s"
    using assms(2) by (simp add: loadLeagueFilter_def)
  have b: "btnFollowAllLive (renderQuickActions (t\<lparr>renderCalls := n\<rparr>)) = btnFollowAllLive t" for n
    using assms(1,4) renderQuickActions_cong [of "t\<lparr>renderCalls := n\<rparr>" s]
      renderQuickActions_cong [of "s\<lparr>renderCalls := renderCalls s + 1\<rparr>" s]
    by (simp add: painted_def paintControls_eq)
  have l: "map_option (map (\<lambda>b. b\<lparr>isActive := (dataFilter b = Some (loadLeagueFilter s))\<rparr>))
             (leagueFilterEl t) = leagueFilterEl t"
    unfolding assms(3) by (simp add: painted_def paintControls_eq option.map_comp comp_def)
  show ?thesis
    by (simp add: painted_def paintControls_eq f b l)
qed

lemma mapE_imp_list_all2: "mapE g xs = Inr ys \<Longrightarrow> list_all2 (\<lambda>x y. g x = Inr y) xs ys"
  by (induction xs arbitrary: ys) (auto split: sum.splits)

lemma list_all2_imp_mapE: "list_all2 (\<lambda>x y. g x = Inr y) xs ys \<Longrightarrow> mapE g xs = Inr ys"
  by (induction xs ys rule: list_all2_induct) simp_all

lemma pickList_spec:
  "pickList (bucketOf leagues key) = Inr (Some (Arr (spec_matchList (optDot leagues key))))"
proof (cases "truthy (optDot leagues key)")
  case False
  then have "spec_matchList (optDot leagues key) = []"
    by (cases "optDot leagues key" rule: truthy.cases) (simp_all add: spec_matchList_def)
  with False show ?thesis
    by (simp add: bucketOf_def orElse_def pickList_def defaultBucket_def)
next
  case True
  then show ?thesis
    by (cases "optDot leagues key" rule: truthy.cases)
       (auto simp: bucketOf_def orElse_def pickList_def spec_matchList_def
             split: option.splits json.splits list.splits)
qed

lemma leagueList_spec:
  "leagueList P leagues key = mapE (stamp P key) (spec_matchList (optDot leagues key))"
  by (simp add: leagueList_def pickList_spec)

lemma buildNext_map_of:
  "buildNext P L keys = Inr nxt \<Longrightarrow> distinct keys \<Longrightarrow> k \<in> set keys \<Longrightarrow>
     \<exists>ms. map_of nxt k = Some ms \<and> leagueList P L k = Inr ms"
proof (induction keys arbitrary: nxt)
  case Nil
  then show ?case by simp
next
  case (Cons a keys)
  then show ?case by (auto split: sum.splits)
qed

lemma leaguesOf_bucket:
  "key \<in> set leagueKeys \<Longrightarrow> optDot (leaguesOf data) key = bucketAt data key"
  by (cases "optDot (Some data) ''leagues''" rule: truthy.cases)
     (auto simp: leaguesOf_def bucketAt_def orElse_def leagueKeys_def)

lemma distinct_leagueKeys: "distinct leagueKeys"
  by (simp add: leagueKeys_def)

lemma pickList_part000_spec:
  "pickList_part000 bucket = Inr list \<Longrightarrow> callMap list g = Inr ms \<Longrightarrow>
     list = Some (Arr (spec_matchList bucket))"
  apply (cases bucket rule: truthy.cases)
        apply (auto simp: pickList_part000_def spec_matchList_def orElse_def
      split: if_splits option.splits json.splits list.splits sum.splits elim!: callMap.elims)
  done

lemma leagueList_part000_spec:
  assumes "leagueList_part000 P L key = Inr ms"
  shows "list_all2 (\<lambda>f m. toMatchModel_part000 P f = Inr m) (spec_matchList (optDot L key)) ms"
proof -
  obtain bucket where b: "dot L key = Inr bucket"
    using assms by (auto simp: leagueList_part000_def split: sum.splits)
  obtain list where l: "pickList_part000 bucket = Inr list"
    and m: "callMap list (toMatchModel_part000 P) = Inr ms"
    using assms b by (auto simp: leagueList_part000_def split: sum.splits)
  have "bucket = optDot L key" using b by (cases L rule: truthy.cases) auto
  moreover have "list = Some (Arr (spec_matchList bucket))"
    using l m by (rule pickList_part000_spec)
  ultimately show ?thesis using m by (simp add: mapE_imp_list_all2)
qed

lemma buildNext_part000_map_of:
  "buildNext_part000 P L keys = Inr nxt \<Longrightarrow> distinct keys \<Longrightarrow> k \<in> set keys \<Longrightarrow>
     \<exists>ms. map_of nxt k = Some ms \<and> leagueList_part000 P L k = Inr ms"
proof (induction keys arbitrary: nxt)
  case Nil
  then show ?case by simp
next
  case (Cons a keys)
  then show ?case by (auto split: sum.splits)
qed

lemma mapE_total:
  "(\<And>x. x \<in> set xs \<Longrightarrow> \<exists>y. g x = Inr y) \<Longrightarrow> \<exists>ys. mapE g xs = Inr ys"
proof (induction xs)
  case Nil
  then show ?case by simp
next
  case (Cons x xs)
  obtain y where "g x = Inr y" using Cons.prems [of x] by auto
  moreover obtain ys where "mapE g xs = Inr ys" using Cons by auto
  ultimately show ?case by simp
qed

lemma buildNext_total:
  "(\<And>k. k \<in> set keys \<Longrightarrow> \<exists>ms. leagueList P L k = Inr ms) \<Longrightarrow>
     \<exists>nxt. buildNext P L keys = Inr nxt"
proof (induction keys)
  case Nil
  then show ?case by simp
next
  case (Cons k keys)
  obtain ms where "leagueList P L k = Inr ms" using Cons.prems [of k] by auto
  moreover obtain rest where "buildNext P L keys = Inr rest" using Cons by auto
  ultimately show ?case by simp
qed

lemma spec_matchList_malformed: "malformedBucket b \<Longrightarrow> spec_matchList b = []"
  by (cases b rule: truthy.cases)
     (auto simp: malformedBucket_def spec_matchList_def split: option.splits json.splits list.splits)

lemma pickList_part000_wellFormed:
  "wellFormedBucket bucket \<Longrightarrow>
     pickList_part000 bucket = Inr (Some (Arr (spec_matchList bucket)))"
  by (cases bucket rule: truthy.cases)
     (auto simp: wellFormedBucket_def pickList_part000_def spec_matchList_def orElse_def
           split: option.splits json.splits list.splits elim!: isArray.elims)

lemma optDot_Some_dot: "optDot v k = Some b \<Longrightarrow> dot v k = Inr (Some b)"
  by (cases v rule: truthy.cases) auto

lemma leagueList_part000_wellFormed:
  assumes "wellFormedBucket (bucketAt data k)"
  shows "dot (Some data) ''leagues'' = Inr (optDot (Some data) ''leagues'')"
    and "leagueList_part000 P (optDot (Some data) ''leagues'') k =
           mapE (toMatchModel_part000 P) (spec_matchList (bucketAt data k))"
proof -
  obtain kvs where b: "bucketAt data k = Some (Obj kvs)"
    using assms by (auto simp: wellFormedBucket_def split: option.splits json.splits)
  then have d: "dot (optDot (Some data) ''leagues'') k = Inr (bucketAt data k)"
    by (simp add: bucketAt_def optDot_Some_dot)
  have "optDot (Some data) ''leagues'' \<noteq> None"
    using b by (cases "optDot (Some data) ''leagues''") (simp_all add: bucketAt_def)
  then show "dot (Some data) ''leagues'' = Inr (optDot (Some data) ''leagues'')"
    by (cases data) auto
  show "leagueList_part000 P (optDot (Some data) ''leagues'') k =
           mapE (toMatchModel_part000 P) (spec_matchList (bucketAt data k))"
    using d assms by (simp add: leagueList_part000_def pickList_part000_wellFormed)
qed

lemma buildNext_part000_total:
  "(\<And>k. k \<in> set keys \<Longrightarrow> \<exists>ms. leagueList_part000 P L k = Inr ms) \<Longrightarrow>
     \<exists>nxt. buildNext_part000 P L keys = Inr nxt"
proof (induction keys)
  case Nil
  then show ?case by simp
next
  case (Cons k keys)
  obtain ms where "leagueList_part000 P L k = Inr ms" using Cons.prems [of k] by auto
  moreover obtain rest where "buildNext_part000 P L keys = Inr rest" using Cons by auto
  ultimately show ?case by simp
qed

lemma mergeSnapshot_part000_total:
  assumes "\<forall>k \<in> set leagueKeys. wellFormedBucket (bucketAt data k) \<and>
             (\<forall>f \<in> set (spec_matchList (bucketAt data k)). \<exists>m. toMatchModel_part000 P f = Inr m)"
  shows "\<exists>nxt. mergeSnapshot_part000 P data = Inr nxt"
proof -
  have "''pl'' \<in> set leagueKeys" by (simp add: leagueKeys_def)
  then have "wellFormedBucket (bucketAt data ''pl'')" using assms by blast
  then have d: "dot (Some data) ''leagues'' = Inr (optDot (Some data) ''leagues'')"
    by (rule leagueList_part000_wellFormed(1))
  have "\<exists>ms. leagueList_part000 P (optDot (Some data) ''leagues'') k = Inr ms"
    if "k \<in> set leagueKeys" for k
    using that assms by (simp add: leagueList_part000_wellFormed(2) mapE_total)
  then have "\<exists>nxt. buildNext_part000 P (optDot (Some data) ''leagues'') leagueKeys = Inr nxt"
    by (rule buildNext_part000_total)
  then show ?thesis by (simp add: mergeSnapshot_part000_def d)
qed

section \<open>Claims on the Snapshot Merger\<close>

text \<open>
  C1. For every feed snapshot and every fixed league id, the Snapshot Merger selects that
  league's match list by the rule of \<open>spec_matchList\<close>: the live array if it is a non-empty
  array, otherwise the upcoming array if present, otherwise the empty list; what the
  upcoming array holds plays no part when the live array is non-empty. In static/app.js
  the selection never throws; the snapshot holds, for each league, the records of the
  selected list, normalised one by one in the order of the feed, and it is built whenever
  every selected record normalises. In unnamed/part_000 the snapshot, when the loop
  returns one, holds the records of the same selection in the same order; and the loop
  returns one for every feed in which each of the four buckets is an object whose
  \<^verbatim>\<open>live\<close> and \<^verbatim>\<open>upcoming\<close> fields are arrays or absent, and whose selected records normalise.
\<close>

theorem C1_live_precedence:
  assumes "key \<in> set leagueKeys"
  shows "pickList (bucketOf (leaguesOf data) key) =
           Inr (Some (Arr (spec_matchList (bucketAt data key))))
    \<and> (\<forall>x xs. optDot (bucketAt data key) ''live'' = Some (Arr (x # xs)) \<longrightarrow>
          pickList (bucketOf (leaguesOf data) key) = Inr (Some (Arr (x # xs))))
    \<and> (\<forall>nxt. mergeSnapshot P data = Inr nxt \<longrightarrow>
          (\<exists>ms. map_of nxt key = Some ms \<and>
             list_all2 (\<lambda>f m. stamp P key f = Inr m) (spec_matchList (bucketAt data key)) ms))
    \<and> ((\<forall>k \<in> set leagueKeys. \<forall>f \<in> set (spec_matchList (bucketAt data k)).
            \<exists>m. stamp P k f = Inr m) \<longrightarrow>
         (\<exists>nxt. mergeSnapshot P data = Inr nxt))
    \<and> (\<forall>nxt. mergeSnapshot_part000 P data = Inr nxt \<longrightarrow>
          (\<exists>ms. map_of nxt key = Some ms \<and>
             list_all2 (\<lambda>f m. toMatchModel_part000 P f = Inr m)
               (spec_matchList (bucketAt data key)) ms))
    \<and> ((\<forall>k \<in> set leagueKeys. wellFormedBucket (bucketAt data k) \<and>
            (\<forall>f \<in> set (spec_matchList (bucketAt data k)).
               \<exists>m. toMatchModel_part000 P f = Inr m)) \<longrightarrow>
         (\<exists>nxt. mergeSnapshot_part000 P data = Inr nxt))"
proof (intro conjI allI impI)
  show sel: "pickList (bucketOf (leaguesOf data) key) =
          Inr (Some (Arr (spec_matchList (bucketAt data key))))"
    using assms by (simp add: pickList_spec leaguesOf_bucket)
  show "pickList (bucketOf (leaguesOf data) key) = Inr (Some (Arr (x # xs)))"
    if "optDot (bucketAt data key) ''live'' = Some (Arr (x # xs))" for x xs
    using that sel by (simp add: spec_matchList_def)
next
  fix nxt assume "mergeSnapshot P data = Inr nxt"
  then obtain ms where "map_of nxt key = Some ms" and "leagueList P (leaguesOf data) key = Inr ms"
    using buildNext_map_of [of P "leaguesOf data" leagueKeys nxt key] assms distinct_leagueKeys
    by (auto simp: mergeSnapshot_def)
  then show "\<exists>ms. map_of nxt key = Some ms \<and>
      list_all2 (\<lambda>f m. stamp P key f = Inr m) (spec_matchList (bucketAt data key)) ms"
    using assms by (auto simp: leagueList_spec leaguesOf_bucket dest: mapE_imp_list_all2)
next
  assume all: "\<forall>k \<in> set leagueKeys. \<forall>f \<in> set (spec_matchList (bucketAt data k)).
                 \<exists>m. stamp P k f = Inr m"
  have "\<exists>ms. leagueList P (leaguesOf data) k = Inr ms" if "k \<in> set leagueKeys" for k
    using that all by (simp add: leagueList_spec leaguesOf_bucket mapE_total)
  then show "\<exists>nxt. mergeSnapshot P data = Inr nxt"
    unfolding mergeSnapshot_def by (rule buildNext_total)
next
  fix nxt assume a: "mergeSnapshot_part000 P data = Inr nxt"
  then obtain L where L: "dot (Some data) ''leagues'' = Inr L"
    and bn: "buildNext_part000 P L leagueKeys = Inr nxt"
    by (auto simp: mergeSnapshot_part000_def split: sum.splits)
  have "L = optDot (Some data) ''leagues''" using L by (cases data) auto
  then have Lb: "optDot L key = bucketAt data key" by (simp add: bucketAt_def)
  obtain ms where "map_of nxt key = Some ms" and "leagueList_part000 P L key = Inr ms"
    using buildNext_part000_map_of [OF bn distinct_leagueKeys assms] by blast
  then show "\<exists>ms. map_of nxt key = Some ms \<and>
      list_all2 (\<lambda>f m. toMatchModel_part000 P f = Inr m) (spec_matchList (bucketAt data key)) ms"
    using leagueList_part000_spec [of P L key ms] Lb by auto
next
  assume "\<forall>k \<in> set leagueKeys. wellFormedBucket (bucketAt data k) \<and>
            (\<forall>f \<in> set (spec_matchList (bucketAt data k)).
               \<exists>m. toMatchModel_part000 P f = Inr m)"
  then show "\<exists>nxt. mergeSnapshot_part000 P data = Inr nxt"
    by (rule mergeSnapshot_part000_total)
qed

text \<open>At the full feed, where \<^verbatim>\<open>pl\<close> has one live and one upcoming record, both revisions
  return a snapshot and the list of \<^verbatim>\<open>pl\<close> is the live record alone.\<close>

theorem C1_live_precedence_witness:
  "''pl'' \<in> set leagueKeys
   \<and> spec_matchList (bucketAt fullFeed ''pl'') = [liveRecord]
   \<and> (\<exists>nxt m. mergeSnapshot samplePlatform fullFeed = Inr nxt
         \<and> map_of nxt ''pl'' = Some [m] \<and> stamp samplePlatform ''pl'' liveRecord = Inr m)
   \<and> (\<exists>nxt m. mergeSnapshot_part000 samplePlatform fullFeed = Inr nxt
         \<and> map_of nxt ''pl'' = Some [m] \<and> toMatchModel_part000 samplePlatform liveRecord = Inr m)"
proof -
  have k: "''pl'' \<in> set leagueKeys" by (simp add: leagueKeys_def)
  have sel: "spec_matchList (bucketAt fullFeed ''pl'') = [liveRecord]"
    by (simp add: spec_matchList_def bucketAt_def fullFeed_def)
  have "case mergeSnapshot samplePlatform fullFeed of Inr nxt \<Rightarrow> True | Inl e \<Rightarrow> False"
    by code_simp
  then obtain nxt where n: "mergeSnapshot samplePlatform fullFeed = Inr nxt"
    by (auto split: sum.splits)
  have "case mergeSnapshot_part000 samplePlatform fullFeed of Inr nxt \<Rightarrow> True | Inl e \<Rightarrow> False"
    by code_simp
  then obtain nxt0 where n0: "mergeSnapshot_part000 samplePlatform fullFeed = Inr nxt0"
    by (auto split: sum.splits)
  note c = C1_live_precedence [OF k, of fullFeed samplePlatform]
  from c n sel obtain m where "map_of nxt ''pl'' = Some [m]"
    and "stamp samplePlatform ''pl'' liveRecord = Inr m"
    by (auto simp: list_all2_Cons1)
  moreover from c n0 sel obtain m0 where "map_of nxt0 ''pl'' = Some [m0]"
    and "toMatchModel_part000 samplePlatform liveRecord = Inr m0"
    by (auto simp: list_all2_Cons1)
  ultimately show ?thesis using k sel n n0 by blast
qed

lemma malformed_leagueList:
  "key \<in> set leagueKeys \<Longrightarrow> malformedBucket (bucketAt data key) \<Longrightarrow>
     leagueList P (leaguesOf data) key = Inr []"
  by (simp add: leagueList_spec leaguesOf_bucket spec_matchList_malformed)

text \<open>
  C6, on static/app.js. When the bucket of a league is missing or malformed (the key is
  absent, the value is not an object, or neither \<^verbatim>\<open>live\<close> nor \<^verbatim>\<open>upcoming\<close> is an array), the
  loop body gives the empty list for that league and does not throw; a snapshot that is
  built has the empty list there; and the snapshot is built, with the lists of the other
  leagues, whenever the records of the other leagues normalise.
\<close>

lemma app_js_malformed_bucket_degrades:
  assumes "key \<in> set leagueKeys" and "malformedBucket (bucketAt data key)"
  shows "leagueList P (leaguesOf data) key = Inr []
    \<and> (\<forall>nxt. mergeSnapshot P data = Inr nxt \<longrightarrow> map_of nxt key = Some [])
    \<and> ((\<forall>k \<in> set leagueKeys. k \<noteq> key \<longrightarrow> (\<exists>ms. leagueList P (leaguesOf data) k = Inr ms)) \<longrightarrow>
         (\<exists>nxt. mergeSnapshot P data = Inr nxt \<and> map_of nxt key = Some [] \<and>
            (\<forall>k \<in> set leagueKeys. \<exists>ms. map_of nxt k = Some ms \<and>
                leagueList P (leaguesOf data) k = Inr ms)))"
proof (intro conjI allI impI)
  show e: "leagueList P (leaguesOf data) key = Inr []"
    using assms by (rule malformed_leagueList)
  show "map_of nxt key = Some []" if "mergeSnapshot P data = Inr nxt" for nxt
    using buildNext_map_of [of P "leaguesOf data" leagueKeys nxt key] that assms(1) e
      distinct_leagueKeys
    by (auto simp: mergeSnapshot_def)
  assume others: "\<forall>k \<in> set leagueKeys. k \<noteq> key \<longrightarrow> (\<exists>ms. leagueList P (leaguesOf data) k = Inr ms)"
  have "\<exists>ms. leagueList P (leaguesOf data) k = Inr ms" if "k \<in> set leagueKeys" for k
    using that others e by (cases "k = key") auto
  then obtain nxt where n: "mergeSnapshot P data = Inr nxt"
    unfolding mergeSnapshot_def using buildNext_total by blast
  have each: "\<exists>ms. map_of nxt k = Some ms \<and> leagueList P (leaguesOf data) k = Inr ms"
    if "k \<in> set leagueKeys" for k
    using buildNext_map_of [of P "leaguesOf data" leagueKeys nxt k] that n distinct_leagueKeys
    by (auto simp: mergeSnapshot_def)
  have "map_of nxt key = Some []"
    using each [OF assms(1)] e by auto
  with each show "\<exists>nxt. mergeSnapshot P data = Inr nxt \<and> map_of nxt key = Some [] \<and>
            (\<forall>k \<in> set leagueKeys. \<exists>ms. map_of nxt k = Some ms \<and>
                leagueList P (leaguesOf data) k = Inr ms)"
    using n by (intro exI [of _ nxt]) auto
qed

text \<open>
  C6, on unnamed/part_000. The feed that has the bucket of \<^verbatim>\<open>pl\<close> only: the loop of
  part_000 reads \<^verbatim>\<open>bucket.live\<close> of the missing bucket of \<^verbatim>\<open>ch\<close> and throws, so no snapshot
  is built; the loop of static/app.js builds the snapshot, with the match \<^verbatim>\<open>m1\<close> for \<^verbatim>\<open>pl\<close> and
  the empty list for the three missing leagues.
\<close>

theorem C6_part000_missing_bucket_throws:
  "mergeSnapshot_part000 samplePlatform plOnlyFeed =
     Inl (TypeError (''Cannot read properties of undefined (reading '' @ apos @ ''live'' @ apos @ '')''))
   \<and> malformedBucket (bucketAt plOnlyFeed ''ch'')
   \<and> map_sum message (map (map_prod id (map id'))) (mergeSnapshot samplePlatform plOnlyFeed) =
       Inr [(''pl'', [Some (Str ''m1'')]), (''ch'', []), (''l1'', []), (''l2'', [])]"
  by code_simp

section \<open>Claims on the Poller and the View Renderer\<close>

lemma toast_frame:
  "LIVE_DATA (toast m s) = LIVE_DATA s"
  "renderCalls (toast m s) = renderCalls s"
  "followedItem (toast m s) = followedItem s"
  "filterItem (toast m s) = filterItem s"
  "followedEl (toast m s) = followedEl s"
  "leaguesEl (toast m s) = leaguesEl s"
  "btnFollowAllLive (toast m s) = btnFollowAllLive s"
  "leagueFilterEl (toast m s) = leagueFilterEl s"
  "pipWin (toast m s) = pipWin s"
  by (simp_all add: toast_def split: option.splits)

lemma render_frame:
  assumes "render s = (e, t)"
  shows "LIVE_DATA t = LIVE_DATA s" and "followedItem t = followedItem s"
    and "filterItem t = filterItem s" and "renderCalls t = renderCalls s + 1"
    and "toastEl t = toastEl s"
proof -
  obtain F where F: "loadFollowedSet s = Inr F" using loadFollowedSet_total by blast
  from assms F
  have "LIVE_DATA t = LIVE_DATA s \<and> followedItem t = followedItem s
      \<and> filterItem t = filterItem s \<and> renderCalls t = renderCalls s + 1
      \<and> toastEl t = toastEl s"
    by (cases rule: render_cases) (simp_all add: painted_frame)
  then show "LIVE_DATA t = LIVE_DATA s" and "followedItem t = followedItem s"
    and "filterItem t = filterItem s" and "renderCalls t = renderCalls s + 1"
    and "toastEl t = toastEl s"
    by simp_all
qed

lemma render_again:
  assumes "render s = (e, t)"
  shows "render t = (e, t\<lparr>renderCalls := renderCalls t + 1\<rparr>)"
proof -
  obtain F where F: "loadFollowedSet s = Inr F" using loadFollowedSet_total by blast
  have L: "LIVE_DATA t = LIVE_DATA s" and fi: "filterItem t = filterItem s"
    using render_frame [OF assms] by simp_all
  have Ft: "loadFollowedSet t = Inr F"
    using F loadFollowedSet_cong [of t s] render_frame(2) [OF assms] by simp
  have ft: "loadLeagueFilter t = loadLeagueFilter s"
    using fi by (simp add: loadLeagueFilter_def)
  have fh: "followedHtml t F = followedHtml s F" using L by (rule followedHtml_cong)
  have lh: "leaguesHtml t F a = leaguesHtml s F a" for a using L by (rule leaguesHtml_cong)
  from assms F show ?thesis
  proof (cases rule: render_cases)
    case (followed e1)
    have "painted t = t\<lparr>renderCalls := renderCalls t + 1\<rparr>"
      using L fi by (rule painted_again) (simp_all add: followed)
    then show ?thesis
      unfolding render_eq [OF Ft] fh by (simp add: followed)
  next
    case (leagues h e2)
    have "painted t = t\<lparr>renderCalls := renderCalls t + 1\<rparr>"
      using L fi by (rule painted_again) (simp_all add: leagues)
    moreover have "followedEl t = h" by (simp add: leagues)
    ultimately show ?thesis
      unfolding render_eq [OF Ft] fh lh ft by (simp add: leagues(1,2,3))
  next
    case (pinned h l e3)
    have "painted t = t\<lparr>renderCalls := renderCalls t + 1\<rparr>"
      using L fi by (rule painted_again) (simp_all add: pinned)
    moreover have "followedEl t = h" and "leaguesEl t = l" by (simp_all add: pinned)
    moreover have "pinnedWin t F = pinnedWin s F"
      using L by (rule pinnedWin_cong) (simp add: pinned painted_frame)
    ultimately show ?thesis
      unfolding render_eq [OF Ft] fh lh ft by (simp add: pinned(1,2,3,4))
  next
    case (shown h l w)
    have "painted t = t\<lparr>renderCalls := renderCalls t + 1\<rparr>"
      using L fi by (rule painted_again) (simp_all add: shown)
    moreover have "followedEl t = h" and "leaguesEl t = l" and "pipWin t = w"
      by (simp_all add: shown)
    moreover have "pinnedWin t F = Inr w"
      using shown(3) L by (rule pinnedWin_again) (simp add: shown)
    ultimately show ?thesis
      unfolding render_eq [OF Ft] fh lh ft by (simp add: shown(1,2,3,4))
  qed
qed

text \<open>
  C2. A poll cycle whose fetch raises, because the transport failed or the response is
  not 2xx, ends in the state it began in but for the toast: the snapshot is the one
  before the poll and \<^verbatim>\<open>render\<close> has not been called. A cycle whose response is 2xx, with a
  JSON body from which the snapshot is built, installs that snapshot and calls \<^verbatim>\<open>render\<close>
  once. A 2xx response whose body is not JSON, or holds a record that does not normalise,
  raises before the snapshot is installed, and is a failed cycle like the others.
\<close>

theorem C2_failed_poll_keeps_snapshot:
  "(run P (Rejected msg) s = toast (if msg \<noteq> [] then msg else ''Fetch failed'') s
      \<and> LIVE_DATA (run P (Rejected msg) s) = LIVE_DATA s
      \<and> renderCalls (run P (Rejected msg) s) = renderCalls s)
   \<and> (\<not> ok st \<longrightarrow>
        run P (Response st body) s = toast (''API error '' @ natStr st) s
      \<and> LIVE_DATA (run P (Response st body) s) = LIVE_DATA s
      \<and> renderCalls (run P (Response st body) s) = renderCalls s)
   \<and> (ok st \<and> JSON_parse body = Inr data \<and> mergeSnapshot P data = Inr nxt \<longrightarrow>
        LIVE_DATA (run P (Response st body) s) = nxt
      \<and> renderCalls (run P (Response st body) s) = renderCalls s + 1)
   \<and> (ok st \<and> (JSON_parse body = Inl e
                \<or> (JSON_parse body = Inr data \<and> mergeSnapshot P data = Inl e)) \<longrightarrow>
        LIVE_DATA (run P (Response st body) s) = LIVE_DATA s
      \<and> renderCalls (run P (Response st body) s) = renderCalls s)"
proof (intro conjI impI)
  show r: "run P (Rejected msg) s = toast (if msg \<noteq> [] then msg else ''Fetch failed'') s"
    by (simp add: run_def fetchScores_def)
  show "LIVE_DATA (run P (Rejected msg) s) = LIVE_DATA s"
    and "renderCalls (run P (Rejected msg) s) = renderCalls s"
    unfolding r by (rule toast_frame)+
next
  assume "\<not> ok st"
  then show a: "run P (Response st body) s = toast (''API error '' @ natStr st) s"
    by (simp add: run_def fetchScores_def)
  show "LIVE_DATA (run P (Response st body) s) = LIVE_DATA s"
    and "renderCalls (run P (Response st body) s) = renderCalls s"
    unfolding a by (rule toast_frame)+
next
  assume h: "ok st \<and> JSON_parse body = Inr data \<and> mergeSnapshot P data = Inr nxt"
  obtain e t where rt: "render (s\<lparr>LIVE_DATA := nxt\<rparr>) = (e, t)"
    by (cases "render (s\<lparr>LIVE_DATA := nxt\<rparr>)")
  have f: "fetchScores P (Response st body) s = (e, t)"
    using h rt by (simp add: fetchScores_def)
  have "LIVE_DATA t = nxt" and "renderCalls t = renderCalls s + 1"
    using render_frame(1,4) [OF rt] by simp_all
  then show "LIVE_DATA (run P (Response st body) s) = nxt"
    and "renderCalls (run P (Response st body) s) = renderCalls s + 1"
    using f by (cases e; simp add: run_def toast_frame)+
next
  assume "ok st \<and> (JSON_parse body = Inl e
                \<or> (JSON_parse body = Inr data \<and> mergeSnapshot P data = Inl e))"
  then have "run P (Response st body) s =
               toast (if message e \<noteq> [] then message e else ''Fetch failed'') s"
    by (auto simp: run_def fetchScores_def)
  then show "LIVE_DATA (run P (Response st body) s) = LIVE_DATA s"
    and "renderCalls (run P (Response st body) s) = renderCalls s"
    by (simp_all add: toast_frame)
qed

text \<open>A 503 leaves the initial page but for the toast; a 200 with the full feed installs
  four leagues and renders once.\<close>

theorem C2_failed_poll_keeps_snapshot_witness:
  "\<not> ok 503
   \<and> run samplePlatform (Response 503 (Text ''Service Unavailable'')) initialState =
       initialState\<lparr>toastEl := Some \<lparr>textContent = ''API error 503'', shown = True\<rparr>\<rparr>
   \<and> ok 200
   \<and> map fst (LIVE_DATA (run samplePlatform (Response 200 (JsonText fullFeed)) initialState)) =
       leagueKeys
   \<and> renderCalls (run samplePlatform (Response 200 (JsonText fullFeed)) initialState) = 1"
proof -
  have "case mergeSnapshot samplePlatform fullFeed of
          Inr nxt \<Rightarrow> map fst nxt = leagueKeys | Inl e \<Rightarrow> False"
    by code_simp
  then obtain nxt where n: "mergeSnapshot samplePlatform fullFeed = Inr nxt"
    and k: "map fst nxt = leagueKeys"
    by (auto split: sum.splits)
  have bad: "\<not> ok 503" and good: "ok 200" by (simp_all add: ok_def)
  have nat: "natStr 503 = ''503''" by code_simp
  note c = C2_failed_poll_keeps_snapshot
    [of samplePlatform "[]" initialState 503 "Text ''Service Unavailable''" fullFeed nxt
        "Error []"]
  note d = C2_failed_poll_keeps_snapshot
    [of samplePlatform "[]" initialState 200 "JsonText fullFeed" fullFeed nxt "Error []"]
  have "run samplePlatform (Response 503 (Text ''Service Unavailable'')) initialState =
       initialState\<lparr>toastEl := Some \<lparr>textContent = ''API error 503'', shown = True\<rparr>\<rparr>"
    using c bad nat by (simp add: toast_def initialState_def)
  moreover have "LIVE_DATA (run samplePlatform (Response 200 (JsonText fullFeed)) initialState) = nxt"
    and "renderCalls (run samplePlatform (Response 200 (JsonText fullFeed)) initialState) = 1"
    using d good n by (simp_all add: initialState_def)
  ultimately show ?thesis using bad good k by simp
qed

text \<open>
  C3. Rendering again, with the snapshot, the followed set and the filter left as they
  are, gives what the first rendering gave: the same exception or none, and the same
  state, the primary surface and the pinned window alike, but for the count of the
  renders.
\<close>

theorem C3_render_idempotent:
  "render (snd (render s)) =
     (fst (render s), (snd (render s))\<lparr>renderCalls := renderCalls (snd (render s)) + 1\<rparr>)"
proof -
  obtain e t where first: "render s = (e, t)" by (cases "render s")
  then have "render t = (e, t\<lparr>renderCalls := renderCalls t + 1\<rparr>)" by (rule render_again)
  then show ?thesis using first by simp
qed

theorem C3_render_idempotent_witness:
  "snd (render (snd (render followingM1))) =
     (snd (render followingM1))\<lparr>renderCalls := 2\<rparr>"
proof -
  obtain e t where r: "render followingM1 = (e, t)" by (cases "render followingM1")
  have "renderCalls t = 1"
    using render_frame(4) [OF r] by (simp add: followingM1_def initialState_def)
  then show ?thesis using C3_render_idempotent [of followingM1] r by simp
qed

section \<open>Claims on the Follow Store\<close>

lemma toggleFollow_loaded:
  assumes "loadFollowedSet s = Inr S"
  shows "loadFollowedSet (snd (toggleFollow i b s)) =
           Inr (if b then setAdd S (Str i) else setDelete S (Str i))"
proof -
  define S' where "S' = (if b then setAdd S (Str i) else setDelete S (Str i))"
  have u: "uniq S'"
    using loadFollowedSet_uniq [OF assms] by (simp add: S'_def uniq_setAdd uniq_setDelete)
  obtain e t where r: "render (saveFollowedSet S' s) = (e, t)"
    by (cases "render (saveFollowedSet S' s)")
  have "followedItem t = followedItem (saveFollowedSet S' s)"
    using render_frame(2) [OF r] .
  then have "loadFollowedSet t = loadFollowedSet (saveFollowedSet S' s)"
    by (rule loadFollowedSet_cong)
  also have "\<dots> = Inr S'" using u by (rule loadFollowedSet_saved)
  finally have "loadFollowedSet t = Inr S'" .
  moreover have "toggleFollow i b s = (e, t)"
    using assms r by (simp add: toggleFollow_def S'_def)
  ultimately show ?thesis by (simp add: S'_def)
qed

lemma setDelete_setAdd:
  "\<not> setHas S (Some (Str i)) \<Longrightarrow> setDelete (setAdd S (Str i)) (Str i) = S"
  by (auto simp: setAdd_def setDelete_def setHas_iff strictEq_def filter_id_conv)

lemma setAdd_present: "setHas S (Some x) \<Longrightarrow> setAdd S x = S"
  by (simp add: setAdd_def)

lemma setDelete_absent: "\<not> setHas S (Some (Str i)) \<Longrightarrow> setDelete S (Str i) = S"
  by (auto simp: setDelete_def setHas_iff strictEq_def filter_id_conv)

lemma loaded_followingM1: "loadFollowedSet followingM1 = Inr [Str ''m1'']"
  by (simp add: loadFollowedSet_def loadFollowedSet_try_def followingM1_def initialState_def
      setAdd_def setHas_def)

text \<open>
  C7, as stated: for every followed set and every id, follow then unfollow restores the
  set. It fails for an id that is followed already: the follow changes nothing and the
  unfollow removes the id. With \<^verbatim>\<open>m1\<close> stored, following and unfollowing \<^verbatim>\<open>m1\<close> leaves the
  empty set.
\<close>

theorem C7_follow_unfollow_counterexample:
  "loadFollowedSet followingM1 = Inr [Str ''m1'']
   \<and> loadFollowedSet (snd (toggleFollow ''m1'' False (snd (toggleFollow ''m1'' True followingM1))))
       = Inr []"
proof -
  have a: "loadFollowedSet (snd (toggleFollow ''m1'' True followingM1)) = Inr [Str ''m1'']"
    using toggleFollow_loaded [OF loaded_followingM1, of "''m1''" True]
    by (simp add: setAdd_def setHas_def strictEq_def)
  show ?thesis
    using toggleFollow_loaded [OF a, of "''m1''" False] loaded_followingM1
    by (simp add: setDelete_def strictEq_def)
qed

text \<open>
  C7, amended. For every followed set and every id that is not in it, following the id
  and then unfollowing it restores the persisted followed set: what \<^verbatim>\<open>loadFollowedSet\<close>
  reads afterwards is what it read before, the same ids in the same order.
\<close>

theorem C7_follow_unfollow_roundtrip:
  assumes "loadFollowedSet s = Inr S" and "\<not> setHas S (Some (Str i))"
  shows "loadFollowedSet (snd (toggleFollow i False (snd (toggleFollow i True s)))) = Inr S
    \<and> (\<exists>S'. loadFollowedSet (snd (toggleFollow i True s)) = Inr S' \<and> setHas S' (Some (Str i)))"
proof -
  have a: "loadFollowedSet (snd (toggleFollow i True s)) = Inr (setAdd S (Str i))"
    using toggleFollow_loaded [OF assms(1), of i True] by simp
  have "loadFollowedSet (snd (toggleFollow i False (snd (toggleFollow i True s)))) =
          Inr (setDelete (setAdd S (Str i)) (Str i))"
    using toggleFollow_loaded [OF a, of i False] by simp
  moreover have "setHas (setAdd S (Str i)) (Some (Str i))"
    by (auto simp: setAdd_def setHas_iff)
  ultimately show ?thesis using a assms(2) by (simp add: setDelete_setAdd)
qed

theorem C7_follow_unfollow_roundtrip_witness:
  "loadFollowedSet followingM1 = Inr [Str ''m1'']
   \<and> \<not> setHas [Str ''m1''] (Some (Str ''m2''))
   \<and> loadFollowedSet (snd (toggleFollow ''m2'' False (snd (toggleFollow ''m2'' True followingM1))))
       = Inr [Str ''m1'']"
proof -
  have n: "\<not> setHas [Str ''m1''] (Some (Str ''m2''))"
    by (simp add: setHas_def strictEq_def)
  show ?thesis
    using C7_follow_unfollow_roundtrip [OF loaded_followingM1 n] loaded_followingM1 n by simp
qed

text \<open>
  C10. Following an id that is in the followed set, and unfollowing an id that is not in
  it, leave the persisted followed set as it was; and a second follow, or a second
  unfollow, of the same id changes nothing after the first.
\<close>

theorem C10_follow_unfollow_idempotent:
  assumes "loadFollowedSet s = Inr S"
  shows "(setHas S (Some (Str i)) \<longrightarrow> loadFollowedSet (snd (toggleFollow i True s)) = Inr S)
    \<and> (\<not> setHas S (Some (Str i)) \<longrightarrow> loadFollowedSet (snd (toggleFollow i False s)) = Inr S)
    \<and> loadFollowedSet (snd (toggleFollow i b (snd (toggleFollow i b s)))) =
        loadFollowedSet (snd (toggleFollow i b s))"
proof (intro conjI impI)
  show "loadFollowedSet (snd (toggleFollow i True s)) = Inr S" if "setHas S (Some (Str i))"
    using toggleFollow_loaded [OF assms, of i True] that by (simp add: setAdd_present)
  show "loadFollowedSet (snd (toggleFollow i False s)) = Inr S" if "\<not> setHas S (Some (Str i))"
    using toggleFollow_loaded [OF assms, of i False] that by (simp add: setDelete_absent)
  define S' where "S' = (if b then setAdd S (Str i) else setDelete S (Str i))"
  have a: "loadFollowedSet (snd (toggleFollow i b s)) = Inr S'"
    using toggleFollow_loaded [OF assms, of i b] by (simp add: S'_def)
  have "(if b then setAdd S' (Str i) else setDelete S' (Str i)) = S'"
    by (auto simp: S'_def setAdd_def setDelete_def setHas_iff strictEq_def filter_id_conv)
  then show "loadFollowedSet (snd (toggleFollow i b (snd (toggleFollow i b s)))) =
        loadFollowedSet (snd (toggleFollow i b s))"
    using toggleFollow_loaded [OF a, of i b] a by simp
qed

theorem C10_follow_unfollow_idempotent_witness:
  "loadFollowedSet followingM1 = Inr [Str ''m1'']
   \<and> setHas [Str ''m1''] (Some (Str ''m1''))
   \<and> loadFollowedSet (snd (toggleFollow ''m1'' True followingM1)) = Inr [Str ''m1'']
   \<and> \<not> setHas [Str ''m1''] (Some (Str ''m2''))
   \<and> loadFollowedSet (snd (toggleFollow ''m2'' False followingM1)) = Inr [Str ''m1'']"
proof -
  have y: "setHas [Str ''m1''] (Some (Str ''m1''))"
    and n: "\<not> setHas [Str ''m1''] (Some (Str ''m2''))"
    by (simp_all add: setHas_def strictEq_def)
  show ?thesis
    using C10_follow_unfollow_idempotent [OF loaded_followingM1, of "''m1''" True]
      C10_follow_unfollow_idempotent [OF loaded_followingM1, of "''m2''" False]
      loaded_followingM1 y n
    by simp
qed

text \<open>
  C9. Loading the followed set never raises, whatever is stored. It yields the empty set
  when the item is absent, when it is the empty string, when it is not valid JSON, and
  when it is JSON for a value that is neither an array nor a string.
\<close>

theorem C9_corrupt_store_loads_empty:
  "(\<exists>S. loadFollowedSet s = Inr S)
   \<and> (followedItem s = None \<longrightarrow> loadFollowedSet s = Inr [])
   \<and> (followedItem s = Some (Text txt) \<longrightarrow> loadFollowedSet s = Inr [])
   \<and> (followedItem s = Some (JsonText v) \<and> (\<forall>xs. v \<noteq> Arr xs) \<and> (\<forall>str. v \<noteq> Str str) \<longrightarrow>
        loadFollowedSet s = Inr [])"
proof (intro conjI impI)
  show "\<exists>S. loadFollowedSet s = Inr S" by (rule loadFollowedSet_total)
  show "loadFollowedSet s = Inr []" if "followedItem s = None"
    using that by (simp add: loadFollowedSet_def loadFollowedSet_try_def)
  show "loadFollowedSet s = Inr []" if "followedItem s = Some (Text txt)"
    using that by (simp add: loadFollowedSet_def loadFollowedSet_try_def)
  show "loadFollowedSet s = Inr []"
    if "followedItem s = Some (JsonText v) \<and> (\<forall>xs. v \<noteq> Arr xs) \<and> (\<forall>str. v \<noteq> Str str)"
    using that by (cases v) (simp_all add: loadFollowedSet_def loadFollowedSet_try_def)
qed

text \<open>The stored text \<^verbatim>\<open>[m1,\<close> is not JSON: the parse throws inside the \<^verbatim>\<open>try\<close>, and the
  load gives the empty set.\<close>

theorem C9_corrupt_store_loads_empty_witness:
  "followedItem corruptStore = Some (Text ''[m1,'')
   \<and> loadFollowedSet_try corruptStore = Inl (SyntaxError ''Unexpected token'')
   \<and> loadFollowedSet corruptStore = Inr []"
proof -
  have f: "followedItem corruptStore = Some (Text ''[m1,'')"
    by (simp add: corruptStore_def)
  have "loadFollowedSet_try corruptStore = Inl (SyntaxError ''Unexpected token'')"
    by (simp add: loadFollowedSet_try_def f)
  then show ?thesis
    using C9_corrupt_store_loads_empty [of corruptStore "''[m1,''"] f by simp
qed

section \<open>Claims on the Filter Store and the Feed Normalizer\<close>

lemma loadFollowedSet_filterItem:
  "loadFollowedSet (s\<lparr>filterItem := v\<rparr>) = loadFollowedSet s"
  by (simp add: loadFollowedSet_def loadFollowedSet_try_def)

lemma painted_filterItem:
  "loadLeagueFilter (s\<lparr>filterItem := v\<rparr>) = loadLeagueFilter s \<Longrightarrow>
     painted (s\<lparr>filterItem := v\<rparr>) = (painted s)\<lparr>filterItem := v\<rparr>"
  by (simp add: painted_def paintControls_eq renderQuickActions_def allMatches_def Let_def)

text \<open>Storing another filter value that loads as the same filter changes nothing in a
  render but the stored value.\<close>

lemma render_filterItem:
  assumes "loadLeagueFilter (s\<lparr>filterItem := v\<rparr>) = loadLeagueFilter s"
  shows "render (s\<lparr>filterItem := v\<rparr>) = (fst (render s), (snd (render s))\<lparr>filterItem := v\<rparr>)"
proof -
  obtain F where F: "loadFollowedSet s = Inr F" using loadFollowedSet_total by blast
  then have F': "loadFollowedSet (s\<lparr>filterItem := v\<rparr>) = Inr F"
    by (simp add: loadFollowedSet_filterItem)
  have fh: "followedHtml (s\<lparr>filterItem := v\<rparr>) F = followedHtml s F"
    by (rule followedHtml_cong) simp
  have lh: "leaguesHtml (s\<lparr>filterItem := v\<rparr>) F a = leaguesHtml s F a" for a
    by (rule leaguesHtml_cong) simp
  have pw: "pinnedWin (s\<lparr>filterItem := v\<rparr>) F = pinnedWin s F"
    by (rule pinnedWin_cong) simp_all
  show ?thesis
    unfolding render_eq [OF F] render_eq [OF F'] fh lh pw assms painted_filterItem [OF assms]
    by (simp split: sum.splits)
qed

lemma render_leagues_out:
  assumes "loadFollowedSet s = Inr F" and "fst (render s) = None"
  shows "\<exists>secs. mapE (leagueSection s F) (leaguesToShow (loadLeagueFilter s)) = Inr secs
           \<and> leaguesEl (snd (render s)) = concat secs"
proof -
  obtain e t where r: "render s = (e, t)" by (cases "render s")
  then have e: "e = None" using assms(2) by simp
  from r assms(1) show ?thesis
  proof (cases rule: render_cases)
    case (shown h l w)
    from shown(2) obtain secs
      where "mapE (leagueSection s F) (leaguesToShow (loadLeagueFilter s)) = Inr secs"
        and "l = concat secs"
      by (auto simp: leaguesHtml_def renderLeagues_def split: sum.splits)
    then show ?thesis using r shown(5) by simp
  qed (simp_all add: e)
qed

text \<open>
  C5, as stated: a stored filter that is not a league id and not \<^verbatim>\<open>all\<close> loads as \<^verbatim>\<open>all\<close>. It
  fails: the stored \<^verbatim>\<open>xyz\<close> is loaded as it is, it matches no league, and the page shows
  no league section.
\<close>

theorem C5_unknown_filter_counterexample:
  "filterItem unknownFilter = Some ''xyz''
   \<and> loadLeagueFilter unknownFilter = ''xyz''
   \<and> leaguesToShow (loadLeagueFilter unknownFilter) = []
   \<and> leaguesEl (snd (render unknownFilter)) = []
   \<and> fst (render unknownFilter) = None"
  by code_simp

text \<open>
  C5, amended. When the league filter is unset, or is stored as the empty string, loading
  it yields \<^verbatim>\<open>all\<close>, and the renderer behaves as if \<^verbatim>\<open>all\<close> were stored: the leagues to show
  are the four fixed leagues in the fixed order, a render ends as it ends with \<^verbatim>\<open>all\<close>
  stored, with the same exception or none and the same page, and after a render that
  throws nothing the league sections of the page are those of \<^verbatim>\<open>pl\<close>, \<^verbatim>\<open>ch\<close>, \<^verbatim>\<open>l1\<close> and \<^verbatim>\<open>l2\<close>,
  one after the other.
\<close>

theorem C5_unset_filter_shows_all:
  assumes "filterItem s = None \<or> filterItem s = Some []"
  shows "loadLeagueFilter s = ''all''
    \<and> leaguesToShow (loadLeagueFilter s) = LEAGUES
    \<and> map fst (leaguesToShow (loadLeagueFilter s)) = leagueKeys
    \<and> render (s\<lparr>filterItem := Some ''all''\<rparr>) =
        (fst (render s), (snd (render s))\<lparr>filterItem := Some ''all''\<rparr>)
    \<and> (\<exists>F. loadFollowedSet s = Inr F
          \<and> (fst (render s) = None \<longrightarrow>
               (\<exists>secs. mapE (leagueSection s F) LEAGUES = Inr secs
                  \<and> leaguesEl (snd (render s)) = concat secs)))"
proof -
  have f: "loadLeagueFilter s = ''all''"
    using assms by (auto simp: loadLeagueFilter_def)
  have l: "leaguesToShow ''all'' = LEAGUES" by (simp add: leaguesToShow_def)
  obtain F where F: "loadFollowedSet s = Inr F" using loadFollowedSet_total by blast
  have "loadLeagueFilter (s\<lparr>filterItem := Some ''all''\<rparr>) = loadLeagueFilter s"
    by (simp add: f) (simp add: loadLeagueFilter_def)
  then have same: "render (s\<lparr>filterItem := Some ''all''\<rparr>) =
        (fst (render s), (snd (render s))\<lparr>filterItem := Some ''all''\<rparr>)"
    by (rule render_filterItem)
  have out: "\<exists>secs. mapE (leagueSection s F) LEAGUES = Inr secs
                  \<and> leaguesEl (snd (render s)) = concat secs"
    if "fst (render s) = None"
    using render_leagues_out [OF F that] by (simp add: f l)
  have k: "map fst LEAGUES = leagueKeys" by (simp add: LEAGUES_def leagueKeys_def)
  from f l k same F out show ?thesis by auto
qed

text \<open>The page after the poll of the full feed, with no filter stored: the render throws
  nothing and the page has the four sections.\<close>

theorem C5_unset_filter_shows_all_witness:
  "filterItem polledState = None
   \<and> loadLeagueFilter polledState = ''all''
   \<and> map fst (leaguesToShow (loadLeagueFilter polledState)) = leagueKeys
   \<and> fst (render polledState) = None
   \<and> fst (render (polledState\<lparr>filterItem := Some ''all''\<rparr>)) = None
   \<and> (\<exists>F secs. loadFollowedSet polledState = Inr F
         \<and> mapE (leagueSection polledState F) LEAGUES = Inr secs \<and> length secs = 4
         \<and> leaguesEl (snd (render polledState)) = concat secs)"
proof -
  have n: "filterItem polledState = None" by code_simp
  have ok: "fst (render polledState) = None" by code_simp
  from n have "filterItem polledState = None \<or> filterItem polledState = Some []" by simp
  note c = C5_unset_filter_shows_all [OF this]
  from c ok obtain F secs where F: "loadFollowedSet polledState = Inr F"
    and secs: "mapE (leagueSection polledState F) LEAGUES = Inr secs"
    and out: "leaguesEl (snd (render polledState)) = concat secs"
    by blast
  have "length secs = 4"
    using mapE_imp_list_all2 [OF secs] by (auto simp: LEAGUES_def dest: list_all2_lengthD)
  with c n ok F secs out show ?thesis by auto
qed

lemma toMatchModel_nonnull:
  "f \<noteq> Null \<Longrightarrow> dot (Some f) k = Inr (getProp f k)"
  by (cases f) simp_all

lemma toStr_primitive: "primitive (Some v) \<Longrightarrow> \<exists>str. toStr v = Inr str"
  by (cases v) simp_all

lemma isoToLocalKickoff_primitive:
  "primitive v \<Longrightarrow> \<exists>ko. isoToLocalKickoff P v = Inr ko"
proof (cases v)
  case None
  then show ?thesis by simp
next
  case (Some ts)
  assume "primitive v"
  then obtain str where "toStr ts = Inr str" using Some toStr_primitive by blast
  then show ?thesis using Some by (simp add: newDate_def)
qed

lemma isoToLocalKickoff_parsed:
  assumes k: "isoToLocalKickoff P (getProp f ''kickoffISO'') = Inr ko"
    and g: "getProp f ''kickoffISO'' = Some ts" and tr: "truthy (Some ts)"
    and d: "Date_new P ts = Some t"
  shows "ko = localeTime P t"
proof -
  from k tr
  have "(case newDate P ts of Inl e \<Rightarrow> Inl e | Inr d \<Rightarrow> Inr (toLocaleTimeString P d)) = Inr ko"
    unfolding g by simp
  then have "toLocaleTimeString P (Date_new P ts) = ko"
    by (cases "toStr ts") (simp_all add: newDate_def)
  then show ?thesis by (simp add: d toLocaleTimeString_def)
qed

text \<open>
  C4, as stated: the kickoff text of an upcoming record is the empty string whenever the
  timestamp is unparseable, and normalisation never fails on a bad timestamp. Both parts
  fail. The timestamp \<^verbatim>\<open>not-a-date\<close> gives an invalid date, which \<^verbatim>\<open>toLocaleTimeString\<close>
  prints as \<^verbatim>\<open>Invalid Date\<close>, so the kickoff text is \<^verbatim>\<open>Invalid Date\<close> and the row shows
  \<^verbatim>\<open>KO Invalid Date\<close>. The timestamp \<^verbatim>\<open>{"toString": 1}\<close> makes \<^verbatim>\<open>new Date\<close> throw a TypeError,
  so the record does not normalise, while the same record with a timestamp that parses
  does.
\<close>

theorem C4_unparseable_kickoff_counterexample:
  "\<not> truthy (getProp badTimeRecord ''isLive'')
   \<and> getProp badTimeRecord ''kickoffISO'' = Some (Str ''not-a-date'')
   \<and> Date_new samplePlatform (Str ''not-a-date'') = None
   \<and> map_sum message status (toMatchModel samplePlatform badTimeRecord) = Inr UPCOMING
   \<and> map_sum message kickoff (toMatchModel samplePlatform badTimeRecord) = Inr ''Invalid Date''
   \<and> map_sum message minute (toMatchModel samplePlatform badTimeRecord) =
       Inr (Some (Str ''KO Invalid Date''))
   \<and> getProp objectTimeRecord ''kickoffISO'' = Some (Obj [(''toString'', Num 1)])
   \<and> toMatchModel samplePlatform objectTimeRecord =
       Inl (TypeError ''Cannot convert object to primitive value'')
   \<and> map_sum message minute (toMatchModel samplePlatform stringTimeRecord) =
       Inr (Some (Str ''KO 15:00''))"
  by code_simp

text \<open>
  C4, amended. For every raw record normalised as UPCOMING, the kickoff text is the
  empty string whenever the timestamp is absent or falsy (\<^verbatim>\<open>null\<close>, the empty string, 0,
  \<^verbatim>\<open>false\<close>), and then the row shows no kickoff; for a timestamp that parses, it is the
  local time the browser prints for that date, and the row shows it after \<^verbatim>\<open>KO\<close>.
  Normalisation does not fail on account of a timestamp that is absent or a primitive
  value (a string, a number, a boolean, \<^verbatim>\<open>null\<close>): two records that differ in such a
  timestamp only fail together, with the same exception.
\<close>

theorem C4_kickoff_text:
  "(\<not> truthy (getProp f ''isLive'') \<and> toMatchModel P f = Inr m \<longrightarrow>
       status m = UPCOMING
     \<and> minute m = Some (Str (if kickoff m = [] then [] else ''KO '' @ kickoff m))
     \<and> (\<not> truthy (getProp f ''kickoffISO'') \<longrightarrow> kickoff m = [] \<and> minute m = Some (Str []))
     \<and> (\<forall>ts t. getProp f ''kickoffISO'' = Some ts \<and> truthy (Some ts) \<and> Date_new P ts = Some t \<longrightarrow>
           kickoff m = localeTime P t))
   \<and> (f \<noteq> Null \<and> g \<noteq> Null \<and> (\<forall>k. k \<noteq> ''kickoffISO'' \<longrightarrow> getProp f k = getProp g k)
        \<and> primitive (getProp f ''kickoffISO'') \<and> primitive (getProp g ''kickoffISO'') \<longrightarrow>
        (toMatchModel P f = Inl e \<longleftrightarrow> toMatchModel P g = Inl e))"
proof -
  have first: "status m = UPCOMING
     \<and> minute m = Some (Str (if kickoff m = [] then [] else ''KO '' @ kickoff m))
     \<and> (\<not> truthy (getProp f ''kickoffISO'') \<longrightarrow> kickoff m = [] \<and> minute m = Some (Str []))
     \<and> (\<forall>ts t. getProp f ''kickoffISO'' = Some ts \<and> truthy (Some ts) \<and> Date_new P ts = Some t \<longrightarrow>
           kickoff m = localeTime P t)"
    if a: "\<not> truthy (getProp f ''isLive'') \<and> toMatchModel P f = Inr m"
  proof -
    from a have k: "isoToLocalKickoff P (getProp f ''kickoffISO'') = Inr (kickoff m)"
      and st: "status m = UPCOMING"
      and mi: "minute m = Some (Str (if kickoff m = [] then [] else ''KO '' @ kickoff m))"
      by (auto simp: toMatchModel_def Let_def split: sum.splits)
    have "kickoff m = []" if "\<not> truthy (getProp f ''kickoffISO'')"
      using that k by (cases "getProp f ''kickoffISO''") simp_all
    moreover have "kickoff m = localeTime P t"
      if "getProp f ''kickoffISO'' = Some ts \<and> truthy (Some ts) \<and> Date_new P ts = Some t" for ts t
      using isoToLocalKickoff_parsed [OF k] that by blast
    ultimately show ?thesis using st mi by auto
  qed
  have second: "toMatchModel P f = Inl e \<longleftrightarrow> toMatchModel P g = Inl e"
    if b: "f \<noteq> Null \<and> g \<noteq> Null \<and> (\<forall>k. k \<noteq> ''kickoffISO'' \<longrightarrow> getProp f k = getProp g k)
        \<and> primitive (getProp f ''kickoffISO'') \<and> primitive (getProp g ''kickoffISO'')"
  proof -
    from b have "getProp f k = getProp g k" if "k \<noteq> ''kickoffISO''" for k
      using that by simp
    then have eqs: "getProp f ''homeGoals'' = getProp g ''homeGoals''"
      "getProp f ''homeTeam'' = getProp g ''homeTeam''"
      "getProp f ''homeName'' = getProp g ''homeName''"
      "getProp f ''home'' = getProp g ''home''"
      "getProp f ''awayTeam'' = getProp g ''awayTeam''"
      "getProp f ''awayName'' = getProp g ''awayName''"
      "getProp f ''away'' = getProp g ''away''"
      by simp_all
    from b have pf: "primitive (getProp f ''kickoffISO'')"
      and pg: "primitive (getProp g ''kickoffISO'')"
      by simp_all
    obtain kf where kf: "isoToLocalKickoff P (getProp f ''kickoffISO'') = Inr kf"
      using isoToLocalKickoff_primitive [OF pf] by blast
    obtain kg where kg: "isoToLocalKickoff P (getProp g ''kickoffISO'') = Inr kg"
      using isoToLocalKickoff_primitive [OF pg] by blast
    have nf: "dot (Some f) k = Inr (getProp f k)"
      and ng: "dot (Some g) k = Inr (getProp g k)" for k
      using b by (simp_all add: toMatchModel_nonnull)
    show ?thesis
      unfolding toMatchModel_def nf ng kf kg eqs Let_def
      by (simp split: sum.splits)
  qed
  from first second show ?thesis by blast
qed

text \<open>The upcoming record of the sample feed: its timestamp parses, and the row shows
  \<^verbatim>\<open>KO 15:00\<close>. A record with a timestamp that parses and the same record with the timestamp
  \<^verbatim>\<open>null\<close>: neither fails.\<close>

theorem C4_kickoff_text_witness:
  "\<not> truthy (getProp upcomingRecord ''isLive'')
   \<and> (\<exists>m. toMatchModel samplePlatform upcomingRecord = Inr m
        \<and> status m = UPCOMING \<and> kickoff m = ''15:00'' \<and> minute m = Some (Str ''KO 15:00''))
   \<and> primitive (getProp stringTimeRecord ''kickoffISO'')
   \<and> primitive (getProp nullTimeRecord ''kickoffISO'')
   \<and> toMatchModel samplePlatform stringTimeRecord \<noteq>
       Inl (TypeError ''Cannot convert object to primitive value'')
   \<and> toMatchModel samplePlatform nullTimeRecord \<noteq>
       Inl (TypeError ''Cannot convert object to primitive value'')"
proof -
  have u: "\<not> truthy (getProp upcomingRecord ''isLive'')"
    by (simp add: upcomingRecord_def)
  have ts: "getProp upcomingRecord ''kickoffISO'' = Some (Str ''2024-03-09T15:00:00Z'')"
    by (simp add: upcomingRecord_def)
  have d: "Date_new samplePlatform (Str ''2024-03-09T15:00:00Z'') = Some 1709996400000"
    and l: "localeTime samplePlatform 1709996400000 = ''15:00''"
    by (simp_all add: samplePlatform_def)
  have "case toMatchModel samplePlatform upcomingRecord of Inr m \<Rightarrow> True | Inl e \<Rightarrow> False"
    by code_simp
  then obtain m where m: "toMatchModel samplePlatform upcomingRecord = Inr m"
    by (auto split: sum.splits)
  from C4_kickoff_text [of upcomingRecord samplePlatform m] u m ts d l
  have one: "status m = UPCOMING \<and> kickoff m = ''15:00'' \<and> minute m = Some (Str ''KO 15:00'')"
    by simp
  have p: "primitive (getProp stringTimeRecord ''kickoffISO'')"
    "primitive (getProp nullTimeRecord ''kickoffISO'')"
    by (simp_all add: stringTimeRecord_def nullTimeRecord_def)
  have nn: "stringTimeRecord \<noteq> Null" "nullTimeRecord \<noteq> Null"
    by (simp_all add: stringTimeRecord_def nullTimeRecord_def)
  have same: "\<forall>k. k \<noteq> ''kickoffISO'' \<longrightarrow> getProp stringTimeRecord k = getProp nullTimeRecord k"
    by (simp add: stringTimeRecord_def nullTimeRecord_def)
  have s: "toMatchModel samplePlatform stringTimeRecord \<noteq>
       Inl (TypeError ''Cannot convert object to primitive value'')"
    by code_simp
  from C4_kickoff_text [of stringTimeRecord samplePlatform m nullTimeRecord
      "TypeError ''Cannot convert object to primitive value''"] p nn same s
  have "toMatchModel samplePlatform nullTimeRecord \<noteq>
       Inl (TypeError ''Cannot convert object to primitive value'')"
    by blast
  with u m one p s show ?thesis by blast
qed

section \<open>Claims on the followed list\<close>

lemma followedMatches_unresolved:
  "findMatchById s (Some i) = None \<Longrightarrow>
     followedMatches s (F1 @ i # F2) = followedMatches s (F1 @ F2)"
  by (simp add: followedMatches_def List.map_filter_def)

lemma find_Some_mem: "find Q xs = Some x \<Longrightarrow> x \<in> set xs \<and> Q x"
  by (induction xs) (auto split: if_splits)

lemma followedMatches_ids:
  assumes "findMatchById s (Some i) = None" and "lm \<in> set (followedMatches s F)"
  shows "id' (snd lm) \<noteq> Some i"
proof -
  obtain j where "findMatchById s (Some j) = Some lm"
    using assms(2) by (auto simp: followedMatches_def List.map_filter_def)
  then have "lm \<in> set (allMatches s)" and "strictEq (id' (snd lm)) (Some j)"
    by (auto simp: findMatchById_def split: prod.splits dest: find_Some_mem)
  moreover have "\<not> strictEq (id' (snd lm)) (Some i)" if "lm \<in> set (allMatches s)"
    using assms(1) that by (cases lm) (auto simp: findMatchById_def find_None_iff)
  ultimately show ?thesis by (auto simp: strictEq_def)
qed

lemma setHas_unresolved:
  "\<not> strictEq v (Some i) \<Longrightarrow> setHas (F1 @ i # F2) v = setHas (F1 @ F2) v"
  by (auto simp: setHas_def strictEq_def)

lemma mapE_cong:
  "(\<And>x. x \<in> set xs \<Longrightarrow> g x = h x) \<Longrightarrow> mapE g xs = mapE h xs"
proof (induction xs)
  case Nil
  then show ?case by simp
next
  case (Cons x xs)
  have "g x = h x" using Cons.prems by simp
  moreover have "mapE g xs = mapE h xs" using Cons by simp
  ultimately show ?case by (simp only: mapE.simps)
qed

lemma snapshot_ids:
  assumes "findMatchById s (Some i) = None" and "map_of (LIVE_DATA s) key = Some ms"
    and "m \<in> set ms"
  shows "\<not> strictEq (id' m) (Some i)"
proof -
  have "(key, ms) \<in> set (LIVE_DATA s)" using assms(2) by (rule map_of_SomeD)
  then have "(key, m) \<in> set (allMatches s)"
    using assms(3) by (force simp: allMatches_def)
  then show ?thesis
    using assms(1) by (auto simp: findMatchById_def find_None_iff)
qed

lemma leagueSection_unresolved:
  assumes "findMatchById s (Some i) = None"
  shows "leagueSection s (F1 @ i # F2) lg = leagueSection s (F1 @ F2) lg"
proof -
  define ms where "ms = (case map_of (LIVE_DATA s) (fst lg) of None \<Rightarrow> [] | Some ms \<Rightarrow> ms)"
  have row: "renderMatchRow m lg (F1 @ i # F2) = renderMatchRow m lg (F1 @ F2)"
    if "m \<in> set ms" for m
  proof -
    have "map_of (LIVE_DATA s) (fst lg) = Some ms"
      using that by (cases "map_of (LIVE_DATA s) (fst lg)") (simp_all add: ms_def)
    with assms have "\<not> strictEq (id' m) (Some i)"
      using that by (rule snapshot_ids)
    then have "setHas (F1 @ i # F2) (id' m) = setHas (F1 @ F2) (id' m)"
      by (rule setHas_unresolved)
    then show ?thesis by (simp add: renderMatchRow_def)
  qed
  define shown where "shown =
    (if length (filter (\<lambda>m. status m = LIVE) ms) \<noteq> 0 then filter (\<lambda>m. status m = LIVE) ms
     else if length (filter (\<lambda>m. status m = UPCOMING) ms) \<noteq> 0
          then filter (\<lambda>m. status m = UPCOMING) ms else [])"
  have "set shown \<subseteq> set ms" by (auto simp: shown_def)
  then have rows: "mapE (\<lambda>m. renderMatchRow m lg (F1 @ i # F2)) shown =
              mapE (\<lambda>m. renderMatchRow m lg (F1 @ F2)) shown"
    by (intro mapE_cong row) auto
  show ?thesis
    unfolding leagueSection_def ms_def [symmetric] Let_def shown_def [symmetric] rows
    by (rule refl)
qed

lemma leaguesHtml_unresolved:
  assumes "findMatchById s (Some i) = None"
  shows "leaguesHtml s (F1 @ i # F2) filt = leaguesHtml s (F1 @ F2) filt"
proof -
  have "leagueSection s (F1 @ i # F2) = leagueSection s (F1 @ F2)"
    using leagueSection_unresolved [OF assms] by (rule ext)
  then show ?thesis by (simp add: leaguesHtml_def renderLeagues_def)
qed

lemma uniq_unresolved: "uniq (F1 @ i # F2) \<Longrightarrow> uniq (F1 @ F2)"
  by (simp add: uniq_def split: if_splits)

lemma painted_followedItem:
  "painted (s\<lparr>followedItem := v\<rparr>) = (painted s)\<lparr>followedItem := v\<rparr>"
  by (simp add: painted_def paintControls_eq renderQuickActions_def allMatches_def Let_def
      loadLeagueFilter_def)

lemma render_unresolved:
  assumes u: "findMatchById s (Some i) = None" and F: "loadFollowedSet s = Inr (F1 @ i # F2)"
  shows "render (saveFollowedSet (F1 @ F2) s) =
           (fst (render s), saveFollowedSet (F1 @ F2) (snd (render s)))"
proof -
  define v where "v = Some (JSON_stringify (Arr (F1 @ F2)))"
  have sv: "saveFollowedSet (F1 @ F2) t = t\<lparr>followedItem := v\<rparr>" for t
    by (simp add: saveFollowedSet_def v_def)
  have "uniq (F1 @ F2)" using loadFollowedSet_uniq [OF F] by (rule uniq_unresolved)
  then have F': "loadFollowedSet (s\<lparr>followedItem := v\<rparr>) = Inr (F1 @ F2)"
    using loadFollowedSet_saved [of "F1 @ F2" s] by (simp add: sv)
  have ff: "loadLeagueFilter (s\<lparr>followedItem := v\<rparr>) = loadLeagueFilter s"
    by (simp add: loadLeagueFilter_def)
  have "followedHtml (s\<lparr>followedItem := v\<rparr>) (F1 @ F2) = followedHtml s (F1 @ F2)"
    by (rule followedHtml_cong) simp
  also have "\<dots> = followedHtml s (F1 @ i # F2)"
    unfolding followedHtml_def renderFollowed_def followedMatches_unresolved [OF u]
    by (rule refl)
  finally have fh: "followedHtml (s\<lparr>followedItem := v\<rparr>) (F1 @ F2) = followedHtml s (F1 @ i # F2)" .
  have "leaguesHtml (s\<lparr>followedItem := v\<rparr>) (F1 @ F2) a = leaguesHtml s (F1 @ F2) a" for a
    by (rule leaguesHtml_cong) simp
  then have lh: "leaguesHtml (s\<lparr>followedItem := v\<rparr>) (F1 @ F2) a = leaguesHtml s (F1 @ i # F2) a"
    for a
    by (simp add: leaguesHtml_unresolved [OF u])
  have "pinnedWin (s\<lparr>followedItem := v\<rparr>) (F1 @ F2) = pinnedWin s (F1 @ F2)"
    by (rule pinnedWin_cong) simp_all
  also have "\<dots> = pinnedWin s (F1 @ i # F2)"
    unfolding pinnedWin_def renderPinnedWindow_def followedMatches_unresolved [OF u]
    by (rule refl)
  finally have pw: "pinnedWin (s\<lparr>followedItem := v\<rparr>) (F1 @ F2) = pinnedWin s (F1 @ i # F2)" .
  show ?thesis
    unfolding sv render_eq [OF F] render_eq [OF F'] fh lh pw ff painted_followedItem
    by (simp split: sum.splits)
qed

lemma render_shown_out:
  assumes "loadFollowedSet s = Inr F" and "fst (render s) = None"
  shows "followedEl (snd (render s)) = followedEl (snd (renderFollowed F s))"
    and "pipWin (snd (render s)) = pipWin (snd (renderPinnedWindow F s))"
proof -
  obtain e t where r: "render s = (e, t)" by (cases "render s")
  then have e: "e = None" using assms(2) by simp
  from r assms(1)
  have "followedEl t = followedEl (snd (renderFollowed F s))
      \<and> pipWin t = pipWin (snd (renderPinnedWindow F s))"
  proof (cases rule: render_cases)
    case (shown h l w)
    then show ?thesis by (simp add: renderFollowed_eq renderPinnedWindow_eq)
  qed (simp_all add: e)
  then show "followedEl (snd (render s)) = followedEl (snd (renderFollowed F s))"
    and "pipWin (snd (render s)) = pipWin (snd (renderPinnedWindow F s))"
    using r by simp_all
qed

text \<open>
  C8. A followed id that resolves to no match of the snapshot gives no entry on either
  surface: the followed list of the page, and the pinned window with its outcome, are
  what they are for the followed set without that id, and no entry is a match with that
  id. A render ends as it ends with the id taken out of the stored set: the same exception
  or none, and the same page and pinned window; after a render that throws nothing, the
  followed list and the pinned window are those of the set without the id. The stored
  followed set is untouched by the render, so the id is still in it.
\<close>

theorem C8_unresolved_followed_id:
  assumes "findMatchById s (Some i) = None"
  shows "followedMatches s (F1 @ i # F2) = followedMatches s (F1 @ F2)
    \<and> (\<forall>lm \<in> set (followedMatches s (F1 @ i # F2)). id' (snd lm) \<noteq> Some i)
    \<and> renderFollowed (F1 @ i # F2) s = renderFollowed (F1 @ F2) s
    \<and> renderPinnedWindow (F1 @ i # F2) s = renderPinnedWindow (F1 @ F2) s
    \<and> (loadFollowedSet s = Inr (F1 @ i # F2) \<longrightarrow>
          render (saveFollowedSet (F1 @ F2) s) =
            (fst (render s), saveFollowedSet (F1 @ F2) (snd (render s)))
        \<and> (fst (render s) = None \<longrightarrow>
              followedEl (snd (render s)) = followedEl (snd (renderFollowed (F1 @ F2) s))
            \<and> pipWin (snd (render s)) = pipWin (snd (renderPinnedWindow (F1 @ F2) s))))
    \<and> followedItem (snd (render s)) = followedItem s
    \<and> loadFollowedSet (snd (render s)) = loadFollowedSet s"
proof -
  have m: "followedMatches s (F1 @ i # F2) = followedMatches s (F1 @ F2)"
    using assms by (rule followedMatches_unresolved)
  have ids: "\<forall>lm \<in> set (followedMatches s (F1 @ i # F2)). id' (snd lm) \<noteq> Some i"
    using followedMatches_ids [OF assms] by blast
  have rf: "renderFollowed (F1 @ i # F2) s = renderFollowed (F1 @ F2) s"
    unfolding renderFollowed_def m by (rule refl)
  have rp: "renderPinnedWindow (F1 @ i # F2) s = renderPinnedWindow (F1 @ F2) s"
    unfolding renderPinnedWindow_def m by (rule refl)
  have whole: "render (saveFollowedSet (F1 @ F2) s) =
            (fst (render s), saveFollowedSet (F1 @ F2) (snd (render s)))"
    if "loadFollowedSet s = Inr (F1 @ i # F2)"
    using assms that by (rule render_unresolved)
  have after: "followedEl (snd (render s)) = followedEl (snd (renderFollowed (F1 @ F2) s))
            \<and> pipWin (snd (render s)) = pipWin (snd (renderPinnedWindow (F1 @ F2) s))"
    if "loadFollowedSet s = Inr (F1 @ i # F2)" and "fst (render s) = None"
    using render_shown_out [OF that] rf rp by simp
  obtain e t where r: "render s = (e, t)" by (cases "render s")
  have st: "followedItem (snd (render s)) = followedItem s"
    using render_frame(2) [OF r] r by simp
  then have "loadFollowedSet (snd (render s)) = loadFollowedSet s"
    by (rule loadFollowedSet_cong)
  with m ids rf rp whole after st show ?thesis by blast
qed

text \<open>Scenario 3: \<^verbatim>\<open>m1\<close> and \<^verbatim>\<open>m9\<close> are followed, the snapshot has \<^verbatim>\<open>m1\<close> only. The followed list
  has the one entry of \<^verbatim>\<open>m1\<close>, the render throws nothing, and \<^verbatim>\<open>m9\<close> is still stored after
  the render.\<close>

theorem C8_unresolved_followed_id_witness:
  "findMatchById polledState (Some (Str ''m9'')) = None
   \<and> loadFollowedSet polledState = Inr [Str ''m1'', Str ''m9'']
   \<and> map (\<lambda>lm. id' (snd lm)) (followedMatches polledState [Str ''m1'', Str ''m9'']) =
       [Some (Str ''m1'')]
   \<and> renderFollowed [Str ''m1'', Str ''m9''] polledState = renderFollowed [Str ''m1''] polledState
   \<and> fst (render polledState) = None
   \<and> fst (render (saveFollowedSet [Str ''m1''] polledState)) = None
   \<and> followedEl (snd (render polledState)) =
       followedEl (snd (renderFollowed [Str ''m1''] polledState))
   \<and> loadFollowedSet (snd (render polledState)) = Inr [Str ''m1'', Str ''m9'']"
proof -
  have u: "findMatchById polledState (Some (Str ''m9'')) = None"
    by code_simp
  have l: "loadFollowedSet polledState = Inr [Str ''m1'', Str ''m9'']"
    by code_simp
  have one: "map (\<lambda>lm. id' (snd lm)) (followedMatches polledState [Str ''m1'']) =
       [Some (Str ''m1'')]"
    by code_simp
  have ok: "fst (render polledState) = None"
    by code_simp
  from C8_unresolved_followed_id [OF u, of "[Str ''m1'']" "[]"] l one ok
  show ?thesis using u by simp
qed

end
